theory Spec2Isabelle
  imports Main "HOL-Library.Word"
begin

section \<open>Solidity values, reverts and checked arithmetic\<close>

text \<open>
  The contracts are compiled with Solidity 0.8: \<open>uint256\<close> arithmetic is checked, an
  overflow, an underflow or a division by zero aborts the call with a panic. Amounts,
  timestamps and counters are natural numbers here and every arithmetic operation of the
  source is one of the checked operations below. Addresses and \<open>bytes32\<close> handles are
  numbers as well; the zero address is \<open>0\<close>. A call of a contract function returns
  \<open>Inl e\<close> when it reverts (the state is then the one before the call) and \<open>Inr\<close>
  of the new state when it succeeds.
\<close>

type_synonym address = nat
type_synonym bytes32 = nat
type_synonym bytes = "8 word list"

definition UINT256_MAX :: nat where
  "UINT256_MAX = 2 ^ 256 - 1"

datatype error =
    Revert string     \<comment> \<open>a failed \<open>require\<close> with its reason string\<close>
  | Panic nat         \<comment> \<open>0x11 arithmetic overflow or underflow, 0x12 division by zero\<close>
  | TransferFailed    \<comment> \<open>the token refused a transfer (SafeERC20 reverts)\<close>
  | ExternalCallFailed \<comment> \<open>another external call reverted\<close>
  | DecodeFailed      \<comment> \<open>\<open>abi.decode\<close> on malformed data\<close>

definition require :: "bool \<Rightarrow> string \<Rightarrow> (error + 'a) \<Rightarrow> error + 'a" where
  "require c msg k = (if c then k else Inl (Revert msg))"

definition bind :: "error + 'a \<Rightarrow> ('a \<Rightarrow> error + 'b) \<Rightarrow> error + 'b" where
  "bind m f = (case m of Inl e \<Rightarrow> Inl e | Inr x \<Rightarrow> f x)"

definition checked_add :: "nat \<Rightarrow> nat \<Rightarrow> error + nat" where
  "checked_add a b = (if a + b \<le> UINT256_MAX then Inr (a + b) else Inl (Panic 17))"

definition checked_sub :: "nat \<Rightarrow> nat \<Rightarrow> error + nat" where
  "checked_sub a b = (if b \<le> a then Inr (a - b) else Inl (Panic 17))"

definition checked_mul :: "nat \<Rightarrow> nat \<Rightarrow> error + nat" where
  "checked_mul a b = (if a * b \<le> UINT256_MAX then Inr (a * b) else Inl (Panic 17))"

definition checked_div :: "nat \<Rightarrow> nat \<Rightarrow> error + nat" where
  "checked_div a b = (if b = 0 then Inl (Panic 18) else Inr (a div b))"

text \<open>
  \<open>abi.decode\<close> of static values: each value fills one big-endian word of 32 bytes.
  Decoding reverts when the data is too short, when an address has one of its upper 96
  bits set, or when a boolean is neither 0 nor 1; bytes after the last word are ignored.
\<close>

definition be_uint256 :: "bytes \<Rightarrow> nat" where
  "be_uint256 bs = foldl (\<lambda>a b. a * 256 + unat b) 0 bs"

definition abi_word :: "nat \<Rightarrow> bytes \<Rightarrow> nat" where
  "abi_word i dat = be_uint256 (take 32 (drop (32 * i) dat))"

definition abi_decode_uint256 :: "bytes \<Rightarrow> error + nat" where
  "abi_decode_uint256 dat = (if length dat < 32 then Inl DecodeFailed else Inr (abi_word 0 dat))"

definition abi_decode_bool :: "bytes \<Rightarrow> error + bool" where
  "abi_decode_bool dat =
     (if length dat < 32 \<or> abi_word 0 dat > 1 then Inl DecodeFailed
      else Inr (abi_word 0 dat = 1))"

definition abi_decode_address_uint256 :: "bytes \<Rightarrow> error + (address \<times> nat)" where
  "abi_decode_address_uint256 dat =
     (if length dat < 64 \<or> abi_word 0 dat \<ge> 2 ^ 160 then Inl DecodeFailed
      else Inr (abi_word 0 dat, abi_word 1 dat))"

section \<open>The payment token\<close>

text \<open>
  Modelled from the spec: the token contract behind \<open>paymentToken\<close> (an ERC-20 with
  EIP-3009, reached through \<open>IERC20\<close> and \<open>SafeERC20\<close>) is not part of the sources.
  The spec's LedgerGateway moves value between two addresses, all or nothing:
  \<open>transfer(from, to, amount)\<close> succeeds or fails. The ledger keeps the balances and
  the list of transfers it has made; a transfer fails when the source balance is too
  small. Allowances are not part of the ledger: a pull from the caller fails only for
  lack of balance. The authorization-based transfer checks a signature, which is left
  to a parameter of \<open>processX402Payment\<close>.
\<close>

record ledger =
  balanceOf :: "address \<Rightarrow> nat"
  transfers :: "(address \<times> address \<times> nat) list"

definition ledger_transfer :: "address \<Rightarrow> address \<Rightarrow> nat \<Rightarrow> ledger \<Rightarrow> error + ledger" where
  "ledger_transfer src dst amount L =
     (if amount \<le> balanceOf L src
      then let b = (balanceOf L)(src := balanceOf L src - amount)
           in Inr (L\<lparr>balanceOf := b(dst := b dst + amount),
                     transfers := transfers L @ [(src, dst, amount)]\<rparr>)
      else Inl TransferFailed)"

section \<open>PaymentRouter: data\<close>

text \<open>
  The structs of the contract. Several of them have fields of the same name, so the
  fields of \<open>Payment\<close>, \<open>StreamingPayment\<close>, \<open>ConditionalPayment\<close> and
  \<open>RecurringPayment\<close> carry the prefixes \<open>p_\<close>, \<open>s_\<close>, \<open>c_\<close> and
  \<open>r_\<close>.
\<close>

datatype PaymentType = SIMPLE | SPLIT | STREAMING | CONDITIONAL | ESCROW | RECURRING

record Payment =
  p_id :: bytes32
  p_payer :: address
  p_paymentType :: PaymentType
  p_totalAmount :: nat
  p_releasedAmount :: nat
  p_createdAt :: nat
  p_completedAt :: nat
  p_isCompleted :: bool
  p_isCancelled :: bool

record SplitRecipient =
  recipient :: address
  basisPoints :: nat

record StreamingPayment =
  s_paymentId :: bytes32
  s_recipient :: address
  s_totalAmount :: nat
  s_claimedAmount :: nat
  s_startTime :: nat
  s_endTime :: nat
  s_lastClaimTime :: nat

record ConditionalPayment =
  c_paymentId :: bytes32
  c_recipient :: address
  c_amount :: nat
  c_conditionContract :: address
  c_conditionData :: bytes
  c_isReleased :: bool

record RecurringPayment =
  r_id :: bytes32
  r_payer :: address
  r_recipient :: address
  r_amount :: nat
  r_interval :: nat
  r_nextPaymentTime :: nat
  r_totalPayments :: nat
  r_completedPayments :: nat
  r_isActive :: bool

text \<open>
  The contract's storage, together with the token's state, which a reverted call leaves
  untouched as well. Solidity mappings are total: a missing key reads as the zero value.
\<close>

record router =
  payments :: "bytes32 \<Rightarrow> Payment"
  splitRecipients :: "bytes32 \<Rightarrow> SplitRecipient list"
  streamingPayments :: "bytes32 \<Rightarrow> StreamingPayment"
  conditionalPayments :: "bytes32 \<Rightarrow> ConditionalPayment"
  recurringPayments :: "bytes32 \<Rightarrow> RecurringPayment"
  userPayments :: "address \<Rightarrow> bytes32 list"
  usedNonces :: "bytes32 \<Rightarrow> bool"
  totalPaymentsProcessed :: nat
  totalVolumeProcessed :: nat
  paymentToken :: ledger

text \<open>
  What a call sees of its transaction: the contract's own address, the caller, the block
  timestamp, and \<open>keccak256\<close> on the packed arguments of the payment ids.
\<close>

datatype preimage =
    SplitId address nat nat
  | StreamId address address nat
  | ConditionalId address address nat
  | RecurringId address address nat
  | WorkflowId address nat string
  | ExecutionId bytes32 address nat

record tx =
  this :: address
  msg_sender :: address
  block_timestamp :: nat
  keccak256 :: "preimage \<Rightarrow> bytes32"

definition safeTransfer :: "tx \<Rightarrow> address \<Rightarrow> nat \<Rightarrow> router \<Rightarrow> error + router" where
  "safeTransfer t dst amount s =
     bind (ledger_transfer (this t) dst amount (paymentToken s))
       (\<lambda>L. Inr (s\<lparr>paymentToken := L\<rparr>))"

definition safeTransferFrom :: "address \<Rightarrow> address \<Rightarrow> nat \<Rightarrow> router \<Rightarrow> error + router" where
  "safeTransferFrom src dst amount s =
     bind (ledger_transfer src dst amount (paymentToken s))
       (\<lambda>L. Inr (s\<lparr>paymentToken := L\<rparr>))"

section \<open>PaymentRouter: operations\<close>

text \<open>
  Every external function is \<open>nonReentrant\<close>. The token and the condition contracts
  are given by their results and do not call back into the router, so the guard is
  open at every entry and has no part in the functions below.
\<close>

text \<open>
  \<open>processX402Payment\<close>. The token's \<open>transferWithAuthorization\<close> verifies the
  payer's signature; it is the parameter \<open>twa\<close>, which returns the token's new state or
  \<open>None\<close> when the token reverts.
\<close>

type_synonym authorized_transfer =
  "address \<Rightarrow> address \<Rightarrow> nat \<Rightarrow> nat \<Rightarrow> nat \<Rightarrow> bytes32 \<Rightarrow> bytes \<Rightarrow> nat \<Rightarrow> ledger \<Rightarrow> ledger option"

definition processX402Payment ::
  "authorized_transfer \<Rightarrow> tx \<Rightarrow> address \<Rightarrow> address \<Rightarrow> nat \<Rightarrow> nat \<Rightarrow> nat \<Rightarrow> bytes32 \<Rightarrow> bytes
     \<Rightarrow> router \<Rightarrow> error + router" where
  "processX402Payment twa t frm to val validAfter validBefore nonce signature s =
     require (\<not> usedNonces s nonce) ''Nonce already used''
    (require (block_timestamp t \<ge> validAfter) ''Payment not yet valid''
    (require (block_timestamp t < validBefore) ''Payment expired''
    (let s1 = s\<lparr>usedNonces := (usedNonces s)(nonce := True)\<rparr> in
     case twa frm to val validAfter validBefore nonce signature (block_timestamp t)
            (paymentToken s1) of
       None \<Rightarrow> Inl ExternalCallFailed
     | Some L \<Rightarrow>
         bind (checked_add (totalPaymentsProcessed s1) 1) (\<lambda>n.
         bind (checked_add (totalVolumeProcessed s1) val) (\<lambda>v.
         Inr (s1\<lparr>totalPaymentsProcessed := n, totalVolumeProcessed := v,
                  paymentToken := L\<rparr>))))))"

text \<open>\<open>createSplitPayment\<close>: the validation loop, the distribution loop, the call.\<close>

fun sumBps :: "SplitRecipient list \<Rightarrow> nat \<Rightarrow> error + nat" where
  "sumBps [] totalBps = Inr totalBps"
| "sumBps (r # rs) totalBps =
     require (recipient r \<noteq> 0) ''Invalid recipient''
       (bind (checked_add totalBps (basisPoints r)) (sumBps rs))"

fun distribute :: "tx \<Rightarrow> bytes32 \<Rightarrow> nat \<Rightarrow> SplitRecipient list \<Rightarrow> router \<Rightarrow> error + router" where
  "distribute t paymentId totalAmount [] s = Inr s"
| "distribute t paymentId totalAmount (r # rs) s =
     bind (checked_mul totalAmount (basisPoints r)) (\<lambda>m.
     let recipientAmount = m div 10000 in
     bind (safeTransfer t (recipient r) recipientAmount s) (\<lambda>s1.
     distribute t paymentId totalAmount rs
       (s1\<lparr>splitRecipients :=
             (splitRecipients s1)(paymentId := splitRecipients s1 paymentId @ [r])\<rparr>)))"

definition createSplitPayment ::
  "tx \<Rightarrow> SplitRecipient list \<Rightarrow> nat \<Rightarrow> router \<Rightarrow> error + (bytes32 \<times> router)" where
  "createSplitPayment t recipients totalAmount s =
     require (length recipients > 0 \<and> length recipients \<le> 20) ''Invalid recipient count''
    (bind (sumBps recipients 0) (\<lambda>totalBps.
     require (totalBps = 10000) ''Basis points must sum to 10000''
    (let paymentId = keccak256 t (SplitId (msg_sender t) (block_timestamp t) totalAmount) in
     bind (safeTransferFrom (msg_sender t) (this t) totalAmount s) (\<lambda>s1.
     bind (distribute t paymentId totalAmount recipients s1) (\<lambda>s2.
     bind (checked_add (totalPaymentsProcessed s2) 1) (\<lambda>n.
     bind (checked_add (totalVolumeProcessed s2) totalAmount) (\<lambda>v.
     Inr (paymentId,
          s2\<lparr>payments := (payments s2)(paymentId :=
                 \<lparr>p_id = paymentId, p_payer = msg_sender t, p_paymentType = SPLIT,
                  p_totalAmount = totalAmount, p_releasedAmount = totalAmount,
                  p_createdAt = block_timestamp t, p_completedAt = block_timestamp t,
                  p_isCompleted = True, p_isCancelled = False\<rparr>),
              userPayments := (userPayments s2)(msg_sender t :=
                 userPayments s2 (msg_sender t) @ [paymentId]),
              totalPaymentsProcessed := n,
              totalVolumeProcessed := v\<rparr>))))))))"

text \<open>Streaming payments.\<close>

definition createStreamingPayment ::
  "tx \<Rightarrow> address \<Rightarrow> nat \<Rightarrow> nat \<Rightarrow> router \<Rightarrow> error + (bytes32 \<times> router)" where
  "createStreamingPayment t rcpt totalAmount duration s =
     require (rcpt \<noteq> 0) ''Invalid recipient''
    (require (totalAmount > 0) ''Amount must be positive''
    (require (duration > 0) ''Duration must be positive''
    (let paymentId = keccak256 t (StreamId (msg_sender t) rcpt (block_timestamp t)) in
     bind (safeTransferFrom (msg_sender t) (this t) totalAmount s) (\<lambda>s1.
     bind (checked_add (block_timestamp t) duration) (\<lambda>endTime.
     Inr (paymentId,
          s1\<lparr>streamingPayments := (streamingPayments s1)(paymentId :=
                 \<lparr>s_paymentId = paymentId, s_recipient = rcpt, s_totalAmount = totalAmount,
                  s_claimedAmount = 0, s_startTime = block_timestamp t,
                  s_endTime = endTime, s_lastClaimTime = block_timestamp t\<rparr>),
              payments := (payments s1)(paymentId :=
                 \<lparr>p_id = paymentId, p_payer = msg_sender t, p_paymentType = STREAMING,
                  p_totalAmount = totalAmount, p_releasedAmount = 0,
                  p_createdAt = block_timestamp t, p_completedAt = 0,
                  p_isCompleted = False, p_isCancelled = False\<rparr>),
              userPayments := (userPayments s1)(msg_sender t :=
                 userPayments s1 (msg_sender t) @ [paymentId])\<rparr>))))))"

text \<open>
  The amount a claim at time \<open>now\<close> would pay: \<open>elapsed\<close>, \<open>totalDuration\<close>,
  \<open>vestedAmount\<close> and \<open>claimable\<close> of \<open>claimStreamingPayment\<close>, in this order.
\<close>

definition claimable_at :: "nat \<Rightarrow> StreamingPayment \<Rightarrow> error + nat" where
  "claimable_at now stream =
     bind (if now > s_endTime stream
           then checked_sub (s_endTime stream) (s_startTime stream)
           else checked_sub now (s_startTime stream)) (\<lambda>elapsed.
     bind (checked_sub (s_endTime stream) (s_startTime stream)) (\<lambda>totalDuration.
     bind (checked_mul (s_totalAmount stream) elapsed) (\<lambda>m.
     bind (checked_div m totalDuration) (\<lambda>vestedAmount.
     checked_sub vestedAmount (s_claimedAmount stream)))))"

definition claimStreamingPayment :: "tx \<Rightarrow> bytes32 \<Rightarrow> router \<Rightarrow> error + router" where
  "claimStreamingPayment t paymentId s =
    (let stream = streamingPayments s paymentId in
     require (s_recipient stream = msg_sender t) ''Not recipient''
    (require (s_claimedAmount stream < s_totalAmount stream) ''Fully claimed''
    (bind (claimable_at (block_timestamp t) stream) (\<lambda>claimable.
     require (claimable > 0) ''Nothing to claim''
    (bind (checked_add (s_claimedAmount stream) claimable) (\<lambda>claimed.
     let stream1 = stream\<lparr>s_claimedAmount := claimed, s_lastClaimTime := block_timestamp t\<rparr>;
         payment1 = (payments s paymentId)\<lparr>p_releasedAmount := claimed\<rparr>;
         payment2 = (if claimed \<ge> s_totalAmount stream1
                     then payment1\<lparr>p_isCompleted := True, p_completedAt := block_timestamp t\<rparr>
                     else payment1)
     in safeTransfer t (msg_sender t) claimable
          (s\<lparr>streamingPayments := (streamingPayments s)(paymentId := stream1),
             payments := (payments s)(paymentId := payment2)\<rparr>)))))))"

text \<open>
  Conditional payments. The condition is read by a \<open>staticcall\<close> of another contract:
  the parameter \<open>staticcall\<close> gives, for a target and its call data, whether the call
  succeeded and the bytes it returned.
\<close>

definition createConditionalPayment ::
  "tx \<Rightarrow> address \<Rightarrow> nat \<Rightarrow> address \<Rightarrow> bytes \<Rightarrow> router \<Rightarrow> error + (bytes32 \<times> router)" where
  "createConditionalPayment t rcpt amount conditionContract conditionData s =
     require (rcpt \<noteq> 0) ''Invalid recipient''
    (require (amount > 0) ''Amount must be positive''
    (let paymentId = keccak256 t (ConditionalId (msg_sender t) rcpt (block_timestamp t)) in
     bind (safeTransferFrom (msg_sender t) (this t) amount s) (\<lambda>s1.
     Inr (paymentId,
          s1\<lparr>conditionalPayments := (conditionalPayments s1)(paymentId :=
                 \<lparr>c_paymentId = paymentId, c_recipient = rcpt, c_amount = amount,
                  c_conditionContract = conditionContract, c_conditionData = conditionData,
                  c_isReleased = False\<rparr>),
              payments := (payments s1)(paymentId :=
                 \<lparr>p_id = paymentId, p_payer = msg_sender t, p_paymentType = CONDITIONAL,
                  p_totalAmount = amount, p_releasedAmount = 0,
                  p_createdAt = block_timestamp t, p_completedAt = 0,
                  p_isCompleted = False, p_isCancelled = False\<rparr>),
              userPayments := (userPayments s1)(msg_sender t :=
                 userPayments s1 (msg_sender t) @ [paymentId])\<rparr>))))"

definition checkCondition :: "(address \<Rightarrow> bytes \<Rightarrow> bool \<times> bytes) \<Rightarrow> ConditionalPayment \<Rightarrow> error + unit" where
  "checkCondition staticcall condPayment =
     (if c_conditionContract condPayment \<noteq> 0
      then (case staticcall (c_conditionContract condPayment) (c_conditionData condPayment) of
              (success, result) \<Rightarrow>
                if \<not> success then Inl (Revert ''Condition not met'')
                else bind (abi_decode_bool result) (\<lambda>met.
                     require met ''Condition not met'' (Inr ())))
      else Inr ())"

definition releaseConditionalPayment ::
  "(address \<Rightarrow> bytes \<Rightarrow> bool \<times> bytes) \<Rightarrow> tx \<Rightarrow> bytes32 \<Rightarrow> router \<Rightarrow> error + router" where
  "releaseConditionalPayment staticcall t paymentId s =
    (let condPayment = conditionalPayments s paymentId in
     require (\<not> c_isReleased condPayment) ''Already released''
    (bind (checkCondition staticcall condPayment) (\<lambda>_.
     let s1 = s\<lparr>conditionalPayments := (conditionalPayments s)(paymentId :=
                   condPayment\<lparr>c_isReleased := True\<rparr>),
                payments := (payments s)(paymentId :=
                   (payments s paymentId)\<lparr>p_releasedAmount := c_amount condPayment,
                      p_isCompleted := True, p_completedAt := block_timestamp t\<rparr>)\<rparr> in
     bind (safeTransfer t (c_recipient condPayment) (c_amount condPayment) s1) (\<lambda>s2.
     bind (checked_add (totalVolumeProcessed s2) (c_amount condPayment)) (\<lambda>v.
     Inr (s2\<lparr>totalVolumeProcessed := v\<rparr>))))))"

text \<open>Recurring payments.\<close>

definition createRecurringPayment ::
  "tx \<Rightarrow> address \<Rightarrow> nat \<Rightarrow> nat \<Rightarrow> nat \<Rightarrow> router \<Rightarrow> error + (bytes32 \<times> router)" where
  "createRecurringPayment t rcpt amount interval totalPayments s =
     require (rcpt \<noteq> 0) ''Invalid recipient''
    (require (amount > 0 \<and> interval > 0 \<and> totalPayments > 0) ''Invalid parameters''
    (let paymentId = keccak256 t (RecurringId (msg_sender t) rcpt (block_timestamp t)) in
     bind (checked_mul amount totalPayments) (\<lambda>fullAmount.
     bind (safeTransferFrom (msg_sender t) (this t) fullAmount s) (\<lambda>s1.
     Inr (paymentId,
          s1\<lparr>recurringPayments := (recurringPayments s1)(paymentId :=
                 \<lparr>r_id = paymentId, r_payer = msg_sender t, r_recipient = rcpt,
                  r_amount = amount, r_interval = interval,
                  r_nextPaymentTime = block_timestamp t, r_totalPayments = totalPayments,
                  r_completedPayments = 0, r_isActive = True\<rparr>),
              payments := (payments s1)(paymentId :=
                 \<lparr>p_id = paymentId, p_payer = msg_sender t, p_paymentType = RECURRING,
                  p_totalAmount = fullAmount, p_releasedAmount = 0,
                  p_createdAt = block_timestamp t, p_completedAt = 0,
                  p_isCompleted = False, p_isCancelled = False\<rparr>),
              userPayments := (userPayments s1)(msg_sender t :=
                 userPayments s1 (msg_sender t) @ [paymentId])\<rparr>)))))"

definition executeRecurringPayment :: "tx \<Rightarrow> bytes32 \<Rightarrow> router \<Rightarrow> error + router" where
  "executeRecurringPayment t paymentId s =
    (let recurring = recurringPayments s paymentId in
     require (r_isActive recurring) ''Not active''
    (require (block_timestamp t \<ge> r_nextPaymentTime recurring) ''Not yet due''
    (require (r_completedPayments recurring < r_totalPayments recurring) ''All payments completed''
    (bind (safeTransfer t (r_recipient recurring) (r_amount recurring) s) (\<lambda>s1.
     bind (checked_add (r_completedPayments recurring) 1) (\<lambda>completed.
     bind (checked_add (block_timestamp t) (r_interval recurring)) (\<lambda>next.
     bind (checked_add (p_releasedAmount (payments s1 paymentId)) (r_amount recurring)) (\<lambda>released.
     bind (checked_add (totalVolumeProcessed s1) (r_amount recurring)) (\<lambda>v.
     let recurring1 = recurring\<lparr>r_completedPayments := completed, r_nextPaymentTime := next\<rparr>;
         payment1 = (payments s1 paymentId)\<lparr>p_releasedAmount := released\<rparr>;
         finished = (completed \<ge> r_totalPayments recurring1)
     in Inr (s1\<lparr>recurringPayments := (recurringPayments s1)(paymentId :=
                    (if finished then recurring1\<lparr>r_isActive := False\<rparr> else recurring1)),
                 payments := (payments s1)(paymentId :=
                    (if finished
                     then payment1\<lparr>p_isCompleted := True, p_completedAt := block_timestamp t\<rparr>
                     else payment1)),
                 totalVolumeProcessed := v\<rparr>))))))))))"

text \<open>Cancellation.\<close>

definition cancelPayment :: "tx \<Rightarrow> bytes32 \<Rightarrow> router \<Rightarrow> error + router" where
  "cancelPayment t paymentId s =
    (let payment = payments s paymentId in
     require (p_payer payment = msg_sender t) ''Not payer''
    (require (\<not> p_isCompleted payment \<and> \<not> p_isCancelled payment) ''Cannot cancel''
    (bind (checked_sub (p_totalAmount payment) (p_releasedAmount payment)) (\<lambda>refundAmount.
     let s1 = s\<lparr>payments := (payments s)(paymentId :=
                   payment\<lparr>p_isCancelled := True, p_completedAt := block_timestamp t\<rparr>)\<rparr> in
     bind (if refundAmount > 0 then safeTransfer t (msg_sender t) refundAmount s1 else Inr s1)
       (\<lambda>s2.
     Inr (if p_paymentType payment = RECURRING
          then s2\<lparr>recurringPayments := (recurringPayments s2)(paymentId :=
                     (recurringPayments s2 paymentId)\<lparr>r_isActive := False\<rparr>)\<rparr>
          else s2))))))"

section \<open>WorkflowEngine: data\<close>

text \<open>
  The enums and structs of the engine. \<open>ConditionType.CUSTOM\<close> is
  \<open>CUSTOM_CONDITION\<close> here, the field \<open>value\<close> of a step is \<open>step_value\<close>,
  and the fields of \<open>Workflow\<close> and \<open>WorkflowExecution\<close> carry the prefixes
  \<open>w_\<close> and \<open>x_\<close>. \<open>_executeStep\<close> and \<open>_evaluateCondition\<close> are
  \<open>executeStep\<close> and \<open>evaluateCondition\<close>.
\<close>

datatype StepType = CALL_AGENT | TRANSFER | SWAP | CONDITION | PARALLEL | DELAY | CUSTOM

datatype ConditionType =
  BALANCE_GT | BALANCE_LT | PRICE_GT | PRICE_LT | TIME_GT | TIME_LT | CUSTOM_CONDITION

record WorkflowStep =
  stepType :: StepType
  agentId :: bytes32
  targetContract :: address
  callData :: bytes
  step_value :: nat
  gasLimit :: nat
  conditionType :: ConditionType
  conditionData :: bytes
  nextStepOnSuccess :: nat
  nextStepOnFailure :: nat

record Workflow =
  w_id :: bytes32
  w_owner :: address
  w_name :: string
  w_description :: string
  w_steps :: "WorkflowStep list"
  w_isActive :: bool
  w_totalExecutions :: nat
  w_successfulExecutions :: nat
  w_totalGasUsed :: nat
  w_createdAt :: nat
  w_lastExecutedAt :: nat

record WorkflowExecution =
  x_workflowId :: bytes32
  x_executor :: address
  x_startStep :: nat
  x_currentStep :: nat
  x_gasUsed :: nat
  x_completed :: bool
  x_success :: bool
  x_errorMessage :: string
  x_startedAt :: nat
  x_completedAt :: nat

datatype event =
    WorkflowCreated bytes32 address string
  | WorkflowDeactivated bytes32
  | WorkflowExecutionStarted bytes32 bytes32 address
  | WorkflowStepExecuted bytes32 bytes32 nat bool
  | WorkflowExecutionCompleted bytes32 bytes32 bool

text \<open>
  The engine calls the agent registry, the payment token and, in a custom step, any
  contract. Their state is the world \<open>'w\<close>, and what a call does to it is given by
  the chain: a call under \<open>try\<close> returns \<open>None\<close> when it reverts, which leaves the
  world as it was; the low-level \<open>call\<close> of a custom step returns its success flag.
  The engine's storage holds the workflows, their execution histories and the counters;
  the steps of a workflow do not change while it runs.
\<close>

record 'w chain =
  registry_recordCall :: "bytes32 \<Rightarrow> 'w \<Rightarrow> 'w option"
  token_transferFrom :: "address \<Rightarrow> address \<Rightarrow> nat \<Rightarrow> 'w \<Rightarrow> (bool \<times> 'w) option"
  token_balanceOf :: "address \<Rightarrow> 'w \<Rightarrow> nat"
  external_call :: "address \<Rightarrow> nat \<Rightarrow> nat \<Rightarrow> bytes \<Rightarrow> 'w \<Rightarrow> bool \<times> 'w"

record 'w engine =
  workflows :: "bytes32 \<Rightarrow> Workflow"
  executions :: "bytes32 \<Rightarrow> WorkflowExecution list"
  userWorkflows :: "address \<Rightarrow> bytes32 list"
  allWorkflowIds :: "bytes32 list"
  executionFee :: nat
  totalWorkflows :: nat
  totalExecutions :: nat
  events :: "event list"
  world :: 'w

text \<open>
  The transaction of an \<open>executeWorkflow\<close> call also carries the value sent with it
  and the gas the loop will have used (\<open>gasStart - gasleft()\<close>).
\<close>

record etx = tx +
  msg_value :: nat
  gas_used :: nat

section \<open>WorkflowEngine: operations\<close>

text \<open>
  \<open>createWorkflow\<close> stores the steps as they are given; \<open>deactivateWorkflow\<close>
  is the owner's latch.
\<close>

definition createWorkflow ::
  "etx \<Rightarrow> string \<Rightarrow> string \<Rightarrow> WorkflowStep list \<Rightarrow> 'w engine
     \<Rightarrow> error + (bytes32 \<times> 'w engine)" where
  "createWorkflow t wname wdescription steps s =
     require (length wname > 0) ''Name required''
    (require (length steps > 0) ''At least one step required''
    (require (length steps \<le> 20) ''Too many steps''
    (let workflowId = keccak256 t (WorkflowId (msg_sender t) (block_timestamp t) wname);
         workflow = (workflows s workflowId)\<lparr>w_id := workflowId, w_owner := msg_sender t,
            w_name := wname, w_description := wdescription, w_isActive := True,
            w_createdAt := block_timestamp t,
            w_steps := w_steps (workflows s workflowId) @ steps\<rparr>
     in bind (checked_add (totalWorkflows s) 1) (\<lambda>n.
        Inr (workflowId,
             s\<lparr>workflows := (workflows s)(workflowId := workflow),
                allWorkflowIds := allWorkflowIds s @ [workflowId],
                userWorkflows := (userWorkflows s)(msg_sender t :=
                   userWorkflows s (msg_sender t) @ [workflowId]),
                totalWorkflows := n,
                events := events s @ [WorkflowCreated workflowId (msg_sender t) wname]\<rparr>)))))"

definition deactivateWorkflow :: "etx \<Rightarrow> bytes32 \<Rightarrow> 'w engine \<Rightarrow> error + 'w engine" where
  "deactivateWorkflow t workflowId s =
     require (w_owner (workflows s workflowId) = msg_sender t) ''Not owner''
       (Inr (s\<lparr>workflows := (workflows s)(workflowId :=
                   (workflows s workflowId)\<lparr>w_isActive := False\<rparr>),
                events := events s @ [WorkflowDeactivated workflowId]\<rparr>))"

definition evaluateCondition ::
  "'w chain \<Rightarrow> etx \<Rightarrow> ConditionType \<Rightarrow> bytes \<Rightarrow> 'w \<Rightarrow> error + bool" where
  "evaluateCondition C t cType cData w =
     (if cType = BALANCE_GT then
        bind (abi_decode_address_uint256 cData) (\<lambda>(account, threshold).
        Inr (token_balanceOf C account w > threshold))
      else if cType = BALANCE_LT then
        bind (abi_decode_address_uint256 cData) (\<lambda>(account, threshold).
        Inr (token_balanceOf C account w < threshold))
      else if cType = TIME_GT then
        bind (abi_decode_uint256 cData) (\<lambda>timestamp.
        Inr (block_timestamp t > timestamp))
      else if cType = TIME_LT then
        bind (abi_decode_uint256 cData) (\<lambda>timestamp.
        Inr (block_timestamp t < timestamp))
      else Inr True)"

text \<open>\<open>_executeStep\<close> returns \<open>(success, nextStep)\<close> and the world after the step.\<close>

definition executeStep ::
  "'w chain \<Rightarrow> etx \<Rightarrow> WorkflowStep \<Rightarrow> 'w \<Rightarrow> error + (bool \<times> nat \<times> 'w)" where
  "executeStep C t step w =
     (if stepType step = CALL_AGENT then
        (case registry_recordCall C (agentId step) w of
           Some w' \<Rightarrow> Inr (True, nextStepOnSuccess step, w')
         | None \<Rightarrow> Inr (False, nextStepOnFailure step, w))
      else if stepType step = TRANSFER then
        bind (abi_decode_address_uint256 (callData step)) (\<lambda>(to, amount).
        case token_transferFrom C (msg_sender t) to amount w of
          Some (result, w') \<Rightarrow> Inr (result, nextStepOnSuccess step, w')
        | None \<Rightarrow> Inr (False, nextStepOnFailure step, w))
      else if stepType step = CONDITION then
        bind (evaluateCondition C t (conditionType step) (conditionData step) w) (\<lambda>success.
        Inr (success, if success then nextStepOnSuccess step else nextStepOnFailure step, w))
      else if stepType step = CUSTOM then
        (case external_call C (targetContract step) (step_value step) (gasLimit step)
                (callData step) w of
           (success, w') \<Rightarrow>
             Inr (success, if \<not> success then nextStepOnFailure step
                           else nextStepOnSuccess step, w'))
      else if stepType step = DELAY then
        bind (abi_decode_uint256 (callData step)) (\<lambda>requiredTime.
        let success = (block_timestamp t \<ge> requiredTime) in
        Inr (success, if \<not> success then nextStepOnFailure step
                      else nextStepOnSuccess step, w))
      else Inr (True, nextStepOnSuccess step, w))"

text \<open>
  The \<open>while\<close> loop of \<open>executeWorkflow\<close>. Its state is the local variables
  \<open>currentStep\<close>, \<open>continueExecution\<close> and \<open>execution\<close>, the events emitted so
  far and the world. Nothing bounds the number of iterations, so the loop is a partial
  function: \<open>None\<close> is a walk that never ends, \<open>Some (Inl e)\<close> a step that reverted
  the transaction, \<open>Some (Inr r)\<close> the state at the loop's exit.
\<close>

type_synonym 'w walk_state = "nat \<times> bool \<times> WorkflowExecution \<times> event list \<times> 'w"

partial_function (option) walk ::
  "'w chain \<Rightarrow> etx \<Rightarrow> bytes32 \<Rightarrow> bytes32 \<Rightarrow> WorkflowStep list \<Rightarrow> 'w walk_state
     \<Rightarrow> (error + (WorkflowExecution \<times> event list \<times> 'w)) option" where
  "walk C t workflowId executionId steps st =
     (case st of (currentStep, continueExecution, execution, evs, w) \<Rightarrow>
        if continueExecution \<and> currentStep < length steps then
          (let step = steps ! currentStep in
           case executeStep C t step w of
             Inl e \<Rightarrow> Some (Inl e)
           | Inr (stepSuccess, nextStep, w') \<Rightarrow>
               (let evs' = evs @ [WorkflowStepExecuted workflowId executionId currentStep
                                    stepSuccess] in
                if \<not> stepSuccess \<and> nextStepOnFailure step = UINT256_MAX then
                  walk C t workflowId executionId steps
                    (currentStep, False,
                     execution\<lparr>x_success := False,
                                x_errorMessage := ''Step failed without handler'',
                                x_currentStep := currentStep\<rparr>, evs', w')
                else
                  (let currentStep' = (if stepSuccess then nextStepOnSuccess step
                                       else nextStepOnFailure step) in
                   if currentStep' \<ge> length steps \<or> currentStep' = UINT256_MAX then
                     walk C t workflowId executionId steps
                       (currentStep', False,
                        execution\<lparr>x_success := stepSuccess, x_currentStep := currentStep'\<rparr>,
                        evs', w')
                   else
                     walk C t workflowId executionId steps
                       (currentStep', True, execution\<lparr>x_currentStep := currentStep'\<rparr>,
                        evs', w'))))
        else Some (Inr (execution, evs, w)))"

definition executeWorkflow ::
  "'w chain \<Rightarrow> etx \<Rightarrow> bytes32 \<Rightarrow> nat \<Rightarrow> 'w engine \<Rightarrow> (error + (bytes32 \<times> 'w engine)) option" where
  "executeWorkflow C t workflowId startStep s =
    (let workflow = workflows s workflowId in
     if w_owner workflow = 0 then Some (Inl (Revert ''Workflow not found''))
     else if \<not> w_isActive workflow then Some (Inl (Revert ''Workflow not active''))
     else if \<not> startStep < length (w_steps workflow) then Some (Inl (Revert ''Invalid start step''))
     else if \<not> msg_value t \<ge> executionFee s then Some (Inl (Revert ''Insufficient execution fee''))
     else
      (let executionId = keccak256 t (ExecutionId workflowId (msg_sender t) (block_timestamp t));
           execution = \<lparr>x_workflowId = workflowId, x_executor = msg_sender t,
                         x_startStep = startStep, x_currentStep = startStep, x_gasUsed = 0,
                         x_completed = False, x_success = False, x_errorMessage = [],
                         x_startedAt = block_timestamp t, x_completedAt = 0\<rparr>
       in case walk C t workflowId executionId (w_steps workflow)
                 (startStep, True, execution,
                  events s @ [WorkflowExecutionStarted workflowId executionId (msg_sender t)],
                  world s) of
            None \<Rightarrow> None
          | Some (Inl e) \<Rightarrow> Some (Inl e)
          | Some (Inr (execution1, evs, w')) \<Rightarrow> Some
             (let execution2 = execution1\<lparr>x_completed := True,
                                  x_completedAt := block_timestamp t,
                                  x_gasUsed := gas_used t\<rparr> in
              bind (checked_add (w_totalExecutions workflow) 1) (\<lambda>wTotal.
              bind (if x_success execution2
                    then checked_add (w_successfulExecutions workflow) 1
                    else Inr (w_successfulExecutions workflow)) (\<lambda>wSuccessful.
              bind (checked_add (w_totalGasUsed workflow) (x_gasUsed execution2)) (\<lambda>wGas.
              bind (checked_add (totalExecutions s) 1) (\<lambda>total.
              Inr (executionId,
                   s\<lparr>executions := (executions s)(workflowId :=
                          executions s workflowId @ [execution2]),
                      workflows := (workflows s)(workflowId :=
                          workflow\<lparr>w_totalExecutions := wTotal,
                             w_successfulExecutions := wSuccessful,
                             w_totalGasUsed := wGas,
                             w_lastExecutedAt := block_timestamp t\<rparr>),
                      totalExecutions := total,
                      events := evs @ [WorkflowExecutionCompleted workflowId executionId
                                         (x_success execution2)],
                      world := w'\<rparr>))))))))"

section \<open>Initial storage and example data\<close>

text \<open>
  The storage of a freshly deployed router: every mapping reads as zero. The examples
  below start from it, so each state they use is reached by calls of the contract.
\<close>

definition zeroPayment :: Payment where
  "zeroPayment = \<lparr>p_id = 0, p_payer = 0, p_paymentType = SIMPLE, p_totalAmount = 0,
     p_releasedAmount = 0, p_createdAt = 0, p_completedAt = 0, p_isCompleted = False,
     p_isCancelled = False\<rparr>"

definition zeroStream :: StreamingPayment where
  "zeroStream = \<lparr>s_paymentId = 0, s_recipient = 0, s_totalAmount = 0, s_claimedAmount = 0,
     s_startTime = 0, s_endTime = 0, s_lastClaimTime = 0\<rparr>"

definition zeroConditional :: ConditionalPayment where
  "zeroConditional = \<lparr>c_paymentId = 0, c_recipient = 0, c_amount = 0,
     c_conditionContract = 0, c_conditionData = [], c_isReleased = False\<rparr>"

definition zeroRecurring :: RecurringPayment where
  "zeroRecurring = \<lparr>r_id = 0, r_payer = 0, r_recipient = 0, r_amount = 0, r_interval = 0,
     r_nextPaymentTime = 0, r_totalPayments = 0, r_completedPayments = 0, r_isActive = False\<rparr>"

definition deployed :: "ledger \<Rightarrow> router" where
  "deployed L = \<lparr>payments = (\<lambda>_. zeroPayment), splitRecipients = (\<lambda>_. []),
     streamingPayments = (\<lambda>_. zeroStream), conditionalPayments = (\<lambda>_. zeroConditional),
     recurringPayments = (\<lambda>_. zeroRecurring), userPayments = (\<lambda>_. []),
     usedNonces = (\<lambda>_. False), totalPaymentsProcessed = 0, totalVolumeProcessed = 0,
     paymentToken = L\<rparr>"

text \<open>The share of one recipient of a split payment (line 195 of the contract).\<close>

definition share :: "nat \<Rightarrow> SplitRecipient \<Rightarrow> nat" where
  "share totalAmount r = totalAmount * basisPoints r div 10000"

text \<open>
  A split payment of 1000 by account 1 through the router at address 9, to A (account 10,
  70 percent) and B (account 11, 30 percent); \<open>recipient_C\<close> holds a third.
\<close>

definition example_tx :: tx where
  "example_tx = \<lparr>this = 9, msg_sender = 1, block_timestamp = 5, keccak256 = (\<lambda>_. 77)\<rparr>"

definition example_ledger :: ledger where
  "example_ledger = \<lparr>balanceOf = (\<lambda>a. if a = 1 then 1000 else 0), transfers = []\<rparr>"

definition recipient_A :: SplitRecipient where
  "recipient_A = \<lparr>recipient = 10, basisPoints = 7000\<rparr>"

definition recipient_B :: SplitRecipient where
  "recipient_B = \<lparr>recipient = 11, basisPoints = 3000\<rparr>"

definition recipient_C :: SplitRecipient where
  "recipient_C = \<lparr>recipient = 12, basisPoints = 3333\<rparr>"

definition split_example :: router where
  "split_example = (case createSplitPayment example_tx [recipient_A, recipient_B] 1000
       (deployed example_ledger) of Inr (_, s') \<Rightarrow> s' | Inl _ \<Rightarrow> deployed example_ledger)"


text \<open>
  Transactions of the examples: the router is at address 9, and the hash gives each kind
  of payment its own id.
\<close>

definition example_keccak :: "preimage \<Rightarrow> bytes32" where
  "example_keccak p = (case p of SplitId _ _ _ \<Rightarrow> 77 | StreamId _ _ _ \<Rightarrow> 78
     | ConditionalId _ _ _ \<Rightarrow> 79 | RecurringId _ _ _ \<Rightarrow> 80 | ExecutionId _ _ _ \<Rightarrow> 81
     | WorkflowId _ _ wname \<Rightarrow> (if wname = ''delay'' then 21 else 22))"

definition tx_at :: "address \<Rightarrow> nat \<Rightarrow> tx" where
  "tx_at sender now =
     \<lparr>this = 9, msg_sender = sender, block_timestamp = now, keccak256 = example_keccak\<rparr>"

definition ledger2 :: ledger where
  "ledger2 = \<lparr>balanceOf = (\<lambda>a. if a = 1 then 1000 else if a = 3 then 500 else 0),
     transfers = []\<rparr>"

text \<open>
  A stream of 100 over 100 seconds, opened at time 0 by account 1 for account 2.
\<close>

definition stream_created :: router where
  "stream_created = (case createStreamingPayment (tx_at 1 0) 2 100 100 (deployed ledger2)
       of Inr (_, s') \<Rightarrow> s' | Inl _ \<Rightarrow> deployed ledger2)"

text \<open>
  The amount vested at time \<open>now\<close>, as the spec writes it, with the truncating
  subtraction of the natural numbers; \<open>claimable_at\<close> is the contract's computation.
\<close>

definition vested_at :: "nat \<Rightarrow> StreamingPayment \<Rightarrow> nat" where
  "vested_at now stream =
     s_totalAmount stream * (min now (s_endTime stream) - s_startTime stream)
       div (s_endTime stream - s_startTime stream)"

text \<open>
  A sequence of claims, each by any caller, at any time, on any payment id; a claim that
  reverts leaves the state as it was.
\<close>

fun claims :: "(tx \<times> bytes32) list \<Rightarrow> router \<Rightarrow> router" where
  "claims [] s = s"
| "claims ((t, paymentId) # cs) s =
     claims cs (case claimStreamingPayment t paymentId s of Inl _ \<Rightarrow> s | Inr s' \<Rightarrow> s')"


section \<open>Calls of the router, in sequence\<close>

text \<open>
  Any external call of the router with its arguments. The outcome of the token's
  authorization-based transfer and of a condition contract's \<open>staticcall\<close> may differ
  from call to call, so each call carries its own. \<open>run\<close> applies a list of
  transactions in order; a call that reverts leaves the state as it was.
\<close>

datatype call =
    ProcessX402Payment authorized_transfer address address nat nat nat bytes32 bytes
  | CreateSplitPayment "SplitRecipient list" nat
  | CreateStreamingPayment address nat nat
  | ClaimStreamingPayment bytes32
  | CreateConditionalPayment address nat address bytes
  | ReleaseConditionalPayment "address \<Rightarrow> bytes \<Rightarrow> bool \<times> bytes" bytes32
  | CreateRecurringPayment address nat nat nat
  | ExecuteRecurringPayment bytes32
  | CancelPayment bytes32

definition dispatch :: "tx \<Rightarrow> call \<Rightarrow> router \<Rightarrow> error + router" where
  "dispatch t c s =
     (case c of
        ProcessX402Payment twa frm to val validAfter validBefore nonce signature \<Rightarrow>
          processX402Payment twa t frm to val validAfter validBefore nonce signature s
      | CreateSplitPayment recipients totalAmount \<Rightarrow>
          bind (createSplitPayment t recipients totalAmount s) (\<lambda>(_, s'). Inr s')
      | CreateStreamingPayment rcpt totalAmount duration \<Rightarrow>
          bind (createStreamingPayment t rcpt totalAmount duration s) (\<lambda>(_, s'). Inr s')
      | ClaimStreamingPayment paymentId \<Rightarrow> claimStreamingPayment t paymentId s
      | CreateConditionalPayment rcpt amount condContract condData \<Rightarrow>
          bind (createConditionalPayment t rcpt amount condContract condData s)
            (\<lambda>(_, s'). Inr s')
      | ReleaseConditionalPayment staticcall paymentId \<Rightarrow>
          releaseConditionalPayment staticcall t paymentId s
      | CreateRecurringPayment rcpt amount interval totalPayments \<Rightarrow>
          bind (createRecurringPayment t rcpt amount interval totalPayments s) (\<lambda>(_, s'). Inr s')
      | ExecuteRecurringPayment paymentId \<Rightarrow> executeRecurringPayment t paymentId s
      | CancelPayment paymentId \<Rightarrow> cancelPayment t paymentId s)"

fun run :: "(tx \<times> call) list \<Rightarrow> router \<Rightarrow> router" where
  "run [] s = s"
| "run ((t, c) # cs) s = run cs (case dispatch t c s of Inl _ \<Rightarrow> s | Inr s' \<Rightarrow> s')"

text \<open>
  A token that accepts every authorization, and a gasless payment of 100 from account 1
  to account 2, submitted by account 5 with nonce 42 at time 50.
\<close>

definition accepting_token :: authorized_transfer where
  "accepting_token frm to val validAfter validBefore nonce signature now L =
     (case ledger_transfer frm to val L of Inl _ \<Rightarrow> None | Inr L' \<Rightarrow> Some L')"

definition x402_example :: router where
  "x402_example = (case processX402Payment accepting_token (tx_at 5 50) 1 2 100 0 1000 42 []
       (deployed ledger2) of Inr s' \<Rightarrow> s' | Inl _ \<Rightarrow> deployed ledger2)"

text \<open>
  A subscription of three payments of 10, at least 10 seconds apart, created at time 0;
  anyone (here account 7) executes it at times 5, 15 and 30.
\<close>

definition recurring_created :: router where
  "recurring_created = (case createRecurringPayment (tx_at 1 0) 2 10 10 3 (deployed ledger2)
       of Inr (_, s') \<Rightarrow> s' | Inl _ \<Rightarrow> deployed ledger2)"

definition recurring_paid_late :: router where
  "recurring_paid_late = (case executeRecurringPayment (tx_at 7 5) 80 recurring_created
       of Inr s' \<Rightarrow> s' | Inl _ \<Rightarrow> recurring_created)"

definition recurring_paid_twice :: router where
  "recurring_paid_twice = (case executeRecurringPayment (tx_at 7 15) 80 recurring_paid_late
       of Inr s' \<Rightarrow> s' | Inl _ \<Rightarrow> recurring_paid_late)"

definition recurring_finished :: router where
  "recurring_finished = (case executeRecurringPayment (tx_at 7 30) 80 recurring_paid_twice
       of Inr s' \<Rightarrow> s' | Inl _ \<Rightarrow> recurring_paid_twice)"

text \<open>
  The stream of 100 beside a conditional payment of 100 by account 3: the recipient
  claims 40 at time 40, the payer cancels at time 50, the recipient claims again at
  time 100.
\<close>

definition two_escrows :: router where
  "two_escrows = (case createConditionalPayment (tx_at 3 0) 4 100 0 [] stream_created
       of Inr (_, s') \<Rightarrow> s' | Inl _ \<Rightarrow> stream_created)"

definition stream_claimed :: router where
  "stream_claimed = (case claimStreamingPayment (tx_at 2 40) 78 two_escrows
       of Inr s' \<Rightarrow> s' | Inl _ \<Rightarrow> two_escrows)"

definition stream_cancelled :: router where
  "stream_cancelled = (case cancelPayment (tx_at 1 50) 78 stream_claimed
       of Inr s' \<Rightarrow> s' | Inl _ \<Rightarrow> stream_claimed)"

definition stream_drained :: router where
  "stream_drained = (case claimStreamingPayment (tx_at 2 100) 78 stream_cancelled
       of Inr s' \<Rightarrow> s' | Inl _ \<Rightarrow> stream_cancelled)"

text \<open>
  A conditional payment without a condition contract, and a \<open>staticcall\<close> that never
  succeeds.
\<close>

definition never_met :: "address \<Rightarrow> bytes \<Rightarrow> bool \<times> bytes" where
  "never_met target dat = (False, [])"

definition conditional_created :: router where
  "conditional_created = (case createConditionalPayment (tx_at 3 0) 4 100 0 [] (deployed ledger2)
       of Inr (_, s') \<Rightarrow> s' | Inl _ \<Rightarrow> deployed ledger2)"

text \<open>The same payment after its payer has cancelled it at time 10.\<close>

definition conditional_cancelled :: router where
  "conditional_cancelled = (case cancelPayment (tx_at 3 10) 79 conditional_created
       of Inr s' \<Rightarrow> s' | Inl _ \<Rightarrow> conditional_created)"

text \<open>
  Workflows. The world of the examples counts the agent calls the registry has recorded.
  Account 3 creates two workflows on a fresh engine: workflow 21 is a delay until time
  100 followed by an agent call; workflow 22 is a condition "time greater than 100"
  followed by an agent call. The first step of both has the "no handler" sentinel as
  failure edge.
\<close>

definition counting_chain :: "nat chain" where
  "counting_chain = \<lparr>registry_recordCall = (\<lambda>agent w. Some (Suc w)),
     token_transferFrom = (\<lambda>src dst amount w. Some (True, w)),
     token_balanceOf = (\<lambda>a w. if a = 1 then 1000 else 0),
     external_call = (\<lambda>target val gas dat w. (True, w))\<rparr>"

definition etx_at :: "address \<Rightarrow> nat \<Rightarrow> etx" where
  "etx_at sender now = \<lparr>this = 9, msg_sender = sender, block_timestamp = now,
     keccak256 = example_keccak, msg_value = 10 ^ 15, gas_used = 21000\<rparr>"

definition uint256_100 :: bytes where
  "uint256_100 = [0, 0, 0, 0, 0, 0, 0, 0, 0, 0, 0, 0, 0, 0, 0, 0,
                  0, 0, 0, 0, 0, 0, 0, 0, 0, 0, 0, 0, 0, 0, 0, 100]"

definition delay_step :: WorkflowStep where
  "delay_step = \<lparr>stepType = DELAY, agentId = 0, targetContract = 0, callData = uint256_100,
     step_value = 0, gasLimit = 0, conditionType = BALANCE_GT, conditionData = [],
     nextStepOnSuccess = 1, nextStepOnFailure = UINT256_MAX\<rparr>"

definition agent_step :: WorkflowStep where
  "agent_step = \<lparr>stepType = CALL_AGENT, agentId = 7, targetContract = 0, callData = [],
     step_value = 0, gasLimit = 0, conditionType = BALANCE_GT, conditionData = [],
     nextStepOnSuccess = UINT256_MAX, nextStepOnFailure = UINT256_MAX\<rparr>"

definition time_gate :: WorkflowStep where
  "time_gate = \<lparr>stepType = CONDITION, agentId = 0, targetContract = 0, callData = [],
     step_value = 0, gasLimit = 0, conditionType = TIME_GT, conditionData = uint256_100,
     nextStepOnSuccess = 1, nextStepOnFailure = UINT256_MAX\<rparr>"

definition zeroWorkflow :: Workflow where
  "zeroWorkflow = \<lparr>w_id = 0, w_owner = 0, w_name = [], w_description = [], w_steps = [],
     w_isActive = False, w_totalExecutions = 0, w_successfulExecutions = 0,
     w_totalGasUsed = 0, w_createdAt = 0, w_lastExecutedAt = 0\<rparr>"

definition engine_deployed :: "nat engine" where
  "engine_deployed = \<lparr>workflows = (\<lambda>_. zeroWorkflow), executions = (\<lambda>_. []),
     userWorkflows = (\<lambda>_. []), allWorkflowIds = [], executionFee = 10 ^ 15,
     totalWorkflows = 0, totalExecutions = 0, events = [], world = 0\<rparr>"

definition example_engine :: "nat engine" where
  "example_engine =
     (case createWorkflow (etx_at 3 10) ''delay'' [] [delay_step, agent_step] engine_deployed of
        Inl _ \<Rightarrow> engine_deployed
      | Inr (_, s1) \<Rightarrow>
          (case createWorkflow (etx_at 3 10) ''gate'' [] [time_gate, agent_step] s1 of
             Inl _ \<Rightarrow> s1
           | Inr (_, s2) \<Rightarrow> s2))"


definition example_execution :: WorkflowExecution where
  "example_execution = \<lparr>x_workflowId = 22, x_executor = 3, x_startStep = 0,
     x_currentStep = 0, x_gasUsed = 0, x_completed = False, x_success = False,
     x_errorMessage = [], x_startedAt = 150, x_completedAt = 0\<rparr>"

definition gate_aborted :: "nat engine" where
  "gate_aborted = (case executeWorkflow counting_chain (etx_at 3 50) 22 0 example_engine of
       Some (Inr (_, s')) \<Rightarrow> s' | _ \<Rightarrow> example_engine)"

section \<open>Evaluation and shared facts\<close>

lemmas eval_defs = require_def bind_def checked_add_def checked_sub_def checked_mul_def
  checked_div_def UINT256_MAX_def safeTransfer_def safeTransferFrom_def ledger_transfer_def
  Let_def deployed_def zeroPayment_def zeroStream_def zeroConditional_def zeroRecurring_def

lemma share_eta: "share A = (\<lambda>r. A * basisPoints r div 10000)"
  by (rule ext) (simp add: share_def)

text \<open>What the distribution loop does: one transfer per recipient, in list order.\<close>

lemma distribute_effect:
  "distribute t pid A rs s = Inr s' \<Longrightarrow>
     transfers (paymentToken s') =
       transfers (paymentToken s) @ map (\<lambda>r. (this t, recipient r, share A r)) rs
     \<and> payments s' = payments s \<and> userPayments s' = userPayments s
     \<and> totalPaymentsProcessed s' = totalPaymentsProcessed s
     \<and> totalVolumeProcessed s' = totalVolumeProcessed s"
proof (induction rs arbitrary: s)
  case Nil
  then show ?case by simp
next
  case (Cons r rs)
  then show ?case
    by (auto simp: bind_def checked_mul_def safeTransfer_def ledger_transfer_def Let_def share_def
        split: sum.splits if_splits)
qed

lemma distribute_balance:
  "distribute t pid A rs s = Inr s' \<Longrightarrow> a \<noteq> this t \<Longrightarrow>
     balanceOf (paymentToken s') a =
       balanceOf (paymentToken s) a + sum_list (map (share A) (filter (\<lambda>r. recipient r = a) rs))"
proof (induction rs arbitrary: s)
  case Nil
  then show ?case by simp
next
  case (Cons r rs)
  then show ?case
    by (auto simp: bind_def checked_mul_def safeTransfer_def ledger_transfer_def Let_def share_def
        split: sum.splits if_splits)
qed

lemma sumBps_total:
  "sumBps rs acc = Inr n \<Longrightarrow> n = acc + sum_list (map basisPoints rs)"
  by (induction rs arbitrary: acc)
    (fastforce simp: require_def bind_def checked_add_def split: if_splits sum.splits)+

lemma shares_le:
  "sum_list (map (share A) rs) * 10000 \<le> A * sum_list (map basisPoints rs)"
proof (induction rs)
  case Nil
  show ?case by simp
next
  case (Cons r rs)
  have "A * basisPoints r div 10000 * 10000 \<le> A * basisPoints r" by simp
  with Cons show ?case by (simp add: algebra_simps share_def)
qed

lemma createSplitPayment_Inr:
  assumes "createSplitPayment t recipients totalAmount s = Inr (paymentId, s')"
  obtains s1 s2 where
    "0 < length recipients" "length recipients \<le> 20"
    "sumBps recipients 0 = Inr 10000"
    "paymentId = keccak256 t (SplitId (msg_sender t) (block_timestamp t) totalAmount)"
    "safeTransferFrom (msg_sender t) (this t) totalAmount s = Inr s1"
    "distribute t paymentId totalAmount recipients s1 = Inr s2"
    "payments s' paymentId =
       \<lparr>p_id = paymentId, p_payer = msg_sender t, p_paymentType = SPLIT,
        p_totalAmount = totalAmount, p_releasedAmount = totalAmount,
        p_createdAt = block_timestamp t, p_completedAt = block_timestamp t,
        p_isCompleted = True, p_isCancelled = False\<rparr>"
    "paymentToken s' = paymentToken s2"
  using assms
  by (auto simp: createSplitPayment_def require_def bind_def Let_def checked_add_def
      split: if_splits sum.splits)

lemma split_example_run:
  "createSplitPayment example_tx [recipient_A, recipient_B] 1000 (deployed example_ledger)
     = Inr (77, split_example)"
  by (simp add: split_example_def createSplitPayment_def example_tx_def example_ledger_def
      recipient_A_def recipient_B_def eval_defs)

lemma createSplitPayment_rejects:
  assumes "length recipients = 0 \<or> length recipients > 20
           \<or> sum_list (map basisPoints recipients) \<noteq> 10000"
  shows "createSplitPayment t recipients A s = Inl (Revert ''Invalid recipient count'')
       \<or> (\<exists>e. sumBps recipients 0 = Inl e \<and> createSplitPayment t recipients A s = Inl e)
       \<or> createSplitPayment t recipients A s = Inl (Revert ''Basis points must sum to 10000'')"
proof (cases "0 < length recipients \<and> length recipients \<le> 20")
  case False
  then have "createSplitPayment t recipients A s = Inl (Revert ''Invalid recipient count'')"
    by (auto simp: createSplitPayment_def require_def)
  then show ?thesis by simp
next
  case count: True
  with assms have bad: "sum_list (map basisPoints recipients) \<noteq> 10000" by auto
  show ?thesis
  proof (cases "sumBps recipients 0")
    case (Inl e)
    with count show ?thesis by (simp add: createSplitPayment_def require_def bind_def)
  next
    case (Inr n)
    from sumBps_total[OF Inr] bad have "n \<noteq> 10000" by simp
    with count Inr show ?thesis by (simp add: createSplitPayment_def require_def bind_def)
  qed
qed

section \<open>Split payments\<close>

text \<open>
  Claim C5. An accepted \<open>createSplitPayment\<close> pulls the total from the caller and at
  once pays every recipient \<open>floor(totalAmount * basisPoints / 10000)\<close>, in list order:
  the token's transfer list grows by exactly these transfers, and an account other than
  the router and the caller gains the shares of the entries that name it. The payment
  record is complete at creation: \<open>isCompleted\<close>, \<open>releasedAmount = totalAmount\<close>,
  \<open>completedAt\<close> the block timestamp. The witness is the split of 1000 between A
  (7000) and B (3000): A receives 700, B receives 300.
\<close>

theorem createSplitPayment_pays_shares:
  assumes "createSplitPayment t recipients totalAmount s = Inr (paymentId, s')"
  shows "transfers (paymentToken s') =
           transfers (paymentToken s) @ (msg_sender t, this t, totalAmount) #
             map (\<lambda>r. (this t, recipient r, totalAmount * basisPoints r div 10000)) recipients
       \<and> (\<forall>a. a \<noteq> this t \<and> a \<noteq> msg_sender t \<longrightarrow>
            balanceOf (paymentToken s') a = balanceOf (paymentToken s) a +
              sum_list (map (\<lambda>r. totalAmount * basisPoints r div 10000)
                 (filter (\<lambda>r. recipient r = a) recipients)))
       \<and> p_isCompleted (payments s' paymentId)
       \<and> p_releasedAmount (payments s' paymentId) = totalAmount
       \<and> p_totalAmount (payments s' paymentId) = totalAmount
       \<and> p_completedAt (payments s' paymentId) = block_timestamp t
       \<and> \<not> p_isCancelled (payments s' paymentId)"
proof -
  from assms obtain s1 s2 where
    pull: "safeTransferFrom (msg_sender t) (this t) totalAmount s = Inr s1" and
    push: "distribute t paymentId totalAmount recipients s1 = Inr s2" and
    rec: "payments s' paymentId =
       \<lparr>p_id = paymentId, p_payer = msg_sender t, p_paymentType = SPLIT,
        p_totalAmount = totalAmount, p_releasedAmount = totalAmount,
        p_createdAt = block_timestamp t, p_completedAt = block_timestamp t,
        p_isCompleted = True, p_isCancelled = False\<rparr>" and
    tok: "paymentToken s' = paymentToken s2"
    by (rule createSplitPayment_Inr)
  from pull have t1: "transfers (paymentToken s1) =
      transfers (paymentToken s) @ [(msg_sender t, this t, totalAmount)]"
    and b1: "\<And>a. a \<noteq> this t \<Longrightarrow> a \<noteq> msg_sender t \<Longrightarrow>
      balanceOf (paymentToken s1) a = balanceOf (paymentToken s) a"
    by (auto simp: safeTransferFrom_def bind_def ledger_transfer_def Let_def split: if_splits)
  have sh: "share totalAmount = (\<lambda>r. totalAmount * basisPoints r div 10000)"
    by (rule ext) (simp add: share_def)
  from distribute_effect[OF push] t1 tok have "transfers (paymentToken s') =
      transfers (paymentToken s) @ (msg_sender t, this t, totalAmount) #
        map (\<lambda>r. (this t, recipient r, totalAmount * basisPoints r div 10000)) recipients"
    by (simp add: share_def)
  moreover have "\<forall>a. a \<noteq> this t \<and> a \<noteq> msg_sender t \<longrightarrow>
            balanceOf (paymentToken s') a = balanceOf (paymentToken s) a +
              sum_list (map (\<lambda>r. totalAmount * basisPoints r div 10000)
                 (filter (\<lambda>r. recipient r = a) recipients))"
    using distribute_balance[OF push] b1 tok by (simp add: sh)
  ultimately show ?thesis using rec by simp
qed

theorem createSplitPayment_pays_shares_witness:
  "createSplitPayment example_tx [recipient_A, recipient_B] 1000 (deployed example_ledger)
     = Inr (77, split_example)
   \<and> balanceOf (paymentToken split_example) 10 = 700
   \<and> balanceOf (paymentToken split_example) 11 = 300
   \<and> transfers (paymentToken split_example) = [(1, 9, 1000), (9, 10, 700), (9, 11, 300)]
   \<and> p_isCompleted (payments split_example 77)
   \<and> p_releasedAmount (payments split_example 77) = 1000
   \<and> p_completedAt (payments split_example 77) = 5"
  using createSplitPayment_pays_shares[OF split_example_run] split_example_run
  by (simp add: example_tx_def example_ledger_def recipient_A_def recipient_B_def deployed_def)

text \<open>
  Claim C6. A call with no recipient, with more than 20 recipients or with basis points
  that do not add up to 10000 is rejected by one of the checks that precede the first
  transfer: the recipient count, the validation loop (\<open>sumBps\<close>) or the sum check.
  An accepted call has between 1 and 20 recipients whose basis points add up to 10000,
  and the amounts it pays out add up to at most the principal.
\<close>

theorem createSplitPayment_validates_and_bounds:
  "(length recipients = 0 \<or> length recipients > 20
      \<or> sum_list (map basisPoints recipients) \<noteq> 10000 \<longrightarrow>
      createSplitPayment t recipients A s = Inl (Revert ''Invalid recipient count'')
      \<or> (\<exists>e. sumBps recipients 0 = Inl e \<and> createSplitPayment t recipients A s = Inl e)
      \<or> createSplitPayment t recipients A s = Inl (Revert ''Basis points must sum to 10000''))
   \<and> (\<forall>paymentId s'. createSplitPayment t recipients A s = Inr (paymentId, s') \<longrightarrow>
        0 < length recipients \<and> length recipients \<le> 20
        \<and> sum_list (map basisPoints recipients) = 10000
        \<and> map (snd \<circ> snd) (drop (Suc (length (transfers (paymentToken s))))
               (transfers (paymentToken s')))
            = map (\<lambda>r. A * basisPoints r div 10000) recipients
        \<and> sum_list (map (\<lambda>r. A * basisPoints r div 10000) recipients) \<le> A)"
proof (intro conjI allI impI)
  assume "length recipients = 0 \<or> length recipients > 20
      \<or> sum_list (map basisPoints recipients) \<noteq> 10000"
  then show "createSplitPayment t recipients A s = Inl (Revert ''Invalid recipient count'')
      \<or> (\<exists>e. sumBps recipients 0 = Inl e \<and> createSplitPayment t recipients A s = Inl e)
      \<or> createSplitPayment t recipients A s = Inl (Revert ''Basis points must sum to 10000'')"
    by (rule createSplitPayment_rejects)
next
  fix paymentId s'
  assume ok: "createSplitPayment t recipients A s = Inr (paymentId, s')"
  from ok obtain s1 s2 where
    len: "0 < length recipients" "length recipients \<le> 20" and
    bps: "sumBps recipients 0 = Inr 10000" and
    pull: "safeTransferFrom (msg_sender t) (this t) A s = Inr s1" and
    push: "distribute t paymentId A recipients s1 = Inr s2" and
    tok: "paymentToken s' = paymentToken s2"
    by (rule createSplitPayment_Inr)
  from len show "0 < length recipients" "length recipients \<le> 20" by simp_all
  from sumBps_total[OF bps] show total: "sum_list (map basisPoints recipients) = 10000"
    by simp
  from pull have "transfers (paymentToken s1) =
      transfers (paymentToken s) @ [(msg_sender t, this t, A)]"
    by (auto simp: safeTransferFrom_def bind_def ledger_transfer_def Let_def split: if_splits)
  with distribute_effect[OF push] tok
  show "map (snd \<circ> snd) (drop (Suc (length (transfers (paymentToken s))))
               (transfers (paymentToken s')))
            = map (\<lambda>r. A * basisPoints r div 10000) recipients"
    by (simp add: share_def comp_def)
  have "sum_list (map (share A) recipients) * 10000 \<le> A * 10000"
    using shares_le[of A recipients] total by simp
  then show "sum_list (map (\<lambda>r. A * basisPoints r div 10000) recipients) \<le> A"
    by (simp add: share_eta)
qed

theorem createSplitPayment_validates_and_bounds_witness:
  "sum_list (map basisPoints [recipient_A, recipient_C]) \<noteq> 10000
   \<and> createSplitPayment example_tx [recipient_A, recipient_C] 1000 (deployed example_ledger)
       = Inl (Revert ''Basis points must sum to 10000'')
   \<and> createSplitPayment example_tx [] 1000 (deployed example_ledger)
       = Inl (Revert ''Invalid recipient count'')
   \<and> createSplitPayment example_tx [recipient_C, recipient_C, recipient_C] 10
       (deployed example_ledger) = Inl (Revert ''Basis points must sum to 10000'')
   \<and> createSplitPayment example_tx [recipient_A, recipient_B] 1000 (deployed example_ledger)
       = Inr (77, split_example)
   \<and> sum_list (map (\<lambda>r. 1000 * basisPoints r div 10000) [recipient_A, recipient_B]) \<le> 1000"
  using createSplitPayment_validates_and_bounds
          [of "[recipient_A, recipient_C]" example_tx 1000 "deployed example_ledger"]
        createSplitPayment_validates_and_bounds
          [of "[recipient_A, recipient_B]" example_tx 1000 "deployed example_ledger"]
        split_example_run
  by (simp add: createSplitPayment_def example_tx_def recipient_A_def recipient_B_def
      recipient_C_def require_def bind_def checked_add_def UINT256_MAX_def)

section \<open>Streaming payments\<close>

lemmas eval_defs2 = eval_defs example_keccak_def tx_at_def ledger2_def claimable_at_def

lemma ledger_transfer_Inr:
  "ledger_transfer src dst amount L = Inr L' \<Longrightarrow>
     transfers L' = transfers L @ [(src, dst, amount)] \<and> amount \<le> balanceOf L src
     \<and> (dst \<noteq> src \<longrightarrow> balanceOf L' dst = balanceOf L dst + amount)
     \<and> (dst \<noteq> src \<longrightarrow> balanceOf L' src = balanceOf L src - amount)
     \<and> (\<forall>a. a \<noteq> src \<and> a \<noteq> dst \<longrightarrow> balanceOf L' a = balanceOf L a)"
  by (auto simp: ledger_transfer_def Let_def split: if_splits)

lemma safeTransfer_Inr:
  "safeTransfer t dst amount s = Inr s' \<Longrightarrow>
     s' = s\<lparr>paymentToken := paymentToken s'\<rparr>
     \<and> ledger_transfer (this t) dst amount (paymentToken s) = Inr (paymentToken s')"
  by (auto simp: safeTransfer_def bind_def split: sum.splits)

lemma claimable_at_Inr:
  "claimable_at now stream = Inr c \<Longrightarrow>
     c = vested_at now stream - s_claimedAmount stream
     \<and> s_claimedAmount stream \<le> vested_at now stream
     \<and> s_startTime stream < s_endTime stream
     \<and> vested_at now stream \<le> s_totalAmount stream"
proof -
  assume a: "claimable_at now stream = Inr c"
  let ?e = "min now (s_endTime stream) - s_startTime stream"
  let ?d = "s_endTime stream - s_startTime stream"
  from a have d: "s_startTime stream < s_endTime stream"
    and v: "c = vested_at now stream - s_claimedAmount stream"
    and le: "s_claimedAmount stream \<le> vested_at now stream"
    by (auto simp: claimable_at_def vested_at_def bind_def checked_sub_def checked_mul_def
        checked_div_def min_def split: if_splits)
  have "?e \<le> ?d" by (simp add: min_def) arith
  then have "s_totalAmount stream * ?e \<le> s_totalAmount stream * ?d" by simp
  then have "s_totalAmount stream * ?e div ?d \<le> s_totalAmount stream * ?d div ?d"
    by (rule div_le_mono)
  with d have "vested_at now stream \<le> s_totalAmount stream"
    by (simp add: vested_at_def)
  with d v le show ?thesis by simp
qed

lemma claimable_at_zero:
  "vested_at now stream \<le> s_claimedAmount stream \<Longrightarrow>
     claimable_at now stream = Inr c \<Longrightarrow> c = 0"
  by (drule claimable_at_Inr) simp

lemma claimStreamingPayment_Inr:
  assumes "claimStreamingPayment t pid s = Inr s'"
  shows "\<exists>c. claimable_at (block_timestamp t) (streamingPayments s pid) = Inr c \<and> 0 < c
     \<and> s_recipient (streamingPayments s pid) = msg_sender t
     \<and> s_claimedAmount (streamingPayments s pid) < s_totalAmount (streamingPayments s pid)
     \<and> transfers (paymentToken s') = transfers (paymentToken s) @ [(this t, msg_sender t, c)]
     \<and> (msg_sender t \<noteq> this t \<longrightarrow>
          balanceOf (paymentToken s') (msg_sender t) = balanceOf (paymentToken s) (msg_sender t) + c)
     \<and> streamingPayments s' = (streamingPayments s)(pid :=
           (streamingPayments s pid)\<lparr>s_claimedAmount := s_claimedAmount (streamingPayments s pid) + c,
              s_lastClaimTime := block_timestamp t\<rparr>)
     \<and> p_releasedAmount (payments s' pid) = s_claimedAmount (streamingPayments s pid) + c
     \<and> (if s_claimedAmount (streamingPayments s pid) + c \<ge> s_totalAmount (streamingPayments s pid)
           then p_isCompleted (payments s' pid)
                \<and> p_completedAt (payments s' pid) = block_timestamp t
           else p_isCompleted (payments s' pid) = p_isCompleted (payments s pid)
                \<and> p_completedAt (payments s' pid) = p_completedAt (payments s pid))"
proof -
  let ?st = "streamingPayments s pid"
  note defs = claimStreamingPayment_def require_def Let_def bind_def
  from assms have a1: "s_recipient ?st = msg_sender t"
    by (simp add: defs split: if_splits)
  from assms a1 have a2: "s_claimedAmount ?st < s_totalAmount ?st"
    by (simp add: defs split: if_splits)
  from assms a1 a2 obtain c where c: "claimable_at (block_timestamp t) ?st = Inr c"
    by (cases "claimable_at (block_timestamp t) ?st") (simp_all add: defs)
  from assms a1 a2 c have pos: "0 < c"
    by (simp add: defs split: if_splits)
  from assms a1 a2 c pos have ov: "s_claimedAmount ?st + c \<le> UINT256_MAX"
    by (simp add: defs checked_add_def split: if_splits)
  let ?mid = "s\<lparr>streamingPayments := (streamingPayments s)(pid :=
             ?st\<lparr>s_claimedAmount := s_claimedAmount ?st + c,
               s_lastClaimTime := block_timestamp t\<rparr>),
           payments := (payments s)(pid :=
             (if s_claimedAmount ?st + c \<ge> s_totalAmount ?st
              then (payments s pid)\<lparr>p_releasedAmount := s_claimedAmount ?st + c,
                     p_isCompleted := True, p_completedAt := block_timestamp t\<rparr>
              else (payments s pid)\<lparr>p_releasedAmount := s_claimedAmount ?st + c\<rparr>))\<rparr>"
  from assms a1 a2 c pos ov have tr: "safeTransfer t (msg_sender t) c ?mid = Inr s'"
    by (simp add: defs checked_add_def)
  from safeTransfer_Inr[OF tr] have s': "s' = ?mid\<lparr>paymentToken := paymentToken s'\<rparr>"
    and lt: "ledger_transfer (this t) (msg_sender t) c (paymentToken s) = Inr (paymentToken s')"
    by simp_all
  have str: "streamingPayments s' = (streamingPayments s)(pid :=
           ?st\<lparr>s_claimedAmount := s_claimedAmount ?st + c,
              s_lastClaimTime := block_timestamp t\<rparr>)"
    by (subst s') simp
  have pay: "payments s' pid =
             (if s_claimedAmount ?st + c \<ge> s_totalAmount ?st
              then (payments s pid)\<lparr>p_releasedAmount := s_claimedAmount ?st + c,
                     p_isCompleted := True, p_completedAt := block_timestamp t\<rparr>
              else (payments s pid)\<lparr>p_releasedAmount := s_claimedAmount ?st + c\<rparr>)"
    by (subst s') simp
  from ledger_transfer_Inr[OF lt] have
    log: "transfers (paymentToken s') = transfers (paymentToken s) @ [(this t, msg_sender t, c)]"
    and bal: "msg_sender t \<noteq> this t \<longrightarrow>
          balanceOf (paymentToken s') (msg_sender t) = balanceOf (paymentToken s) (msg_sender t) + c"
    by simp_all
  from pay have rel: "p_releasedAmount (payments s' pid) = s_claimedAmount ?st + c"
    and comp: "if s_claimedAmount ?st + c \<ge> s_totalAmount ?st
           then p_isCompleted (payments s' pid)
                \<and> p_completedAt (payments s' pid) = block_timestamp t
           else p_isCompleted (payments s' pid) = p_isCompleted (payments s pid)
                \<and> p_completedAt (payments s' pid) = p_completedAt (payments s pid)"
    by simp_all
  from c pos a1 a2 log bal str rel comp show ?thesis by blast
qed

lemma claimStreamingPayment_step:
  assumes "claimStreamingPayment t pid' s = Inr s'"
  shows "s_totalAmount (streamingPayments s' pid) = s_totalAmount (streamingPayments s pid)
     \<and> s_claimedAmount (streamingPayments s pid) \<le> s_claimedAmount (streamingPayments s' pid)
     \<and> (s_claimedAmount (streamingPayments s pid) \<le> s_totalAmount (streamingPayments s pid)
          \<longrightarrow> s_claimedAmount (streamingPayments s' pid) \<le> s_totalAmount (streamingPayments s pid))"
proof -
  from claimStreamingPayment_Inr[OF assms] obtain c where
    c: "claimable_at (block_timestamp t) (streamingPayments s pid') = Inr c" and
    str: "streamingPayments s' = (streamingPayments s)(pid' :=
           (streamingPayments s pid')\<lparr>s_claimedAmount := s_claimedAmount (streamingPayments s pid') + c,
              s_lastClaimTime := block_timestamp t\<rparr>)"
    by blast
  from claimable_at_Inr[OF c] have
    "s_claimedAmount (streamingPayments s pid') + c \<le> s_totalAmount (streamingPayments s pid')"
    by simp
  with str show ?thesis by simp
qed

lemma claims_append: "claims (cs @ cs') s = claims cs' (claims cs s)"
  by (induction cs arbitrary: s) auto

lemma claims_invariant:
  "s_totalAmount (streamingPayments (claims cs s) pid) = s_totalAmount (streamingPayments s pid)
     \<and> s_claimedAmount (streamingPayments s pid) \<le> s_claimedAmount (streamingPayments (claims cs s) pid)
     \<and> (s_claimedAmount (streamingPayments s pid) \<le> s_totalAmount (streamingPayments s pid)
          \<longrightarrow> s_claimedAmount (streamingPayments (claims cs s) pid)
                \<le> s_totalAmount (streamingPayments s pid))"
proof (induction cs arbitrary: s)
  case Nil
  show ?case by simp
next
  case (Cons a cs)
  obtain t pid' where a: "a = (t, pid')" by (cases a)
  show ?case
  proof (cases "claimStreamingPayment t pid' s")
    case (Inl e)
    with a Cons.IH[of s] show ?thesis by simp
  next
    case (Inr s')
    from claimStreamingPayment_step[OF Inr, of pid] Cons.IH[of s'] a Inr
    show ?thesis by auto
  qed
qed

lemma stream_created_run:
  "createStreamingPayment (tx_at 1 0) 2 100 100 (deployed ledger2) = Inr (78, stream_created)"
  by (simp add: stream_created_def createStreamingPayment_def eval_defs2)

lemma stream_created_stream:
  "streamingPayments stream_created 78 = \<lparr>s_paymentId = 78, s_recipient = 2, s_totalAmount = 100,
      s_claimedAmount = 0, s_startTime = 0, s_endTime = 100, s_lastClaimTime = 0\<rparr>"
  by (simp add: stream_created_def createStreamingPayment_def eval_defs2)

text \<open>
  Claim C7. A claim by the stream's recipient computes
  \<open>elapsed = min(now, endTime) - startTime\<close>,
  \<open>vested = floor(totalAmount * elapsed / (endTime - startTime))\<close> and
  \<open>claimable = vested - claimedAmount\<close>. It fails when nothing is claimable. When it
  succeeds it transfers exactly \<open>claimable\<close> to the recipient, adds it to
  \<open>claimedAmount\<close>, sets \<open>lastClaimTime\<close> to the block timestamp, and marks the
  payment completed if the claimed amount has reached the total; otherwise the completion
  flag stays as it was.
\<close>

theorem claimStreamingPayment_vesting:
  assumes "s_recipient (streamingPayments s pid) = msg_sender t"
    and "stream = streamingPayments s pid"
    and "elapsed = min (block_timestamp t) (s_endTime stream) - s_startTime stream"
    and "vested = s_totalAmount stream * elapsed div (s_endTime stream - s_startTime stream)"
  shows "(vested \<le> s_claimedAmount stream \<longrightarrow> (\<exists>e. claimStreamingPayment t pid s = Inl e))
    \<and> (\<forall>s'. claimStreamingPayment t pid s = Inr s' \<longrightarrow>
         0 < vested - s_claimedAmount stream
       \<and> transfers (paymentToken s') = transfers (paymentToken s) @
            [(this t, s_recipient stream, vested - s_claimedAmount stream)]
       \<and> (s_recipient stream \<noteq> this t \<longrightarrow>
            balanceOf (paymentToken s') (s_recipient stream) =
              balanceOf (paymentToken s) (s_recipient stream) + (vested - s_claimedAmount stream))
       \<and> s_claimedAmount (streamingPayments s' pid) =
            s_claimedAmount stream + (vested - s_claimedAmount stream)
       \<and> s_lastClaimTime (streamingPayments s' pid) = block_timestamp t
       \<and> p_releasedAmount (payments s' pid) = s_claimedAmount (streamingPayments s' pid)
       \<and> (if s_claimedAmount (streamingPayments s' pid) \<ge> s_totalAmount stream
           then p_isCompleted (payments s' pid)
                \<and> p_completedAt (payments s' pid) = block_timestamp t
           else p_isCompleted (payments s' pid) = p_isCompleted (payments s pid)
                \<and> p_completedAt (payments s' pid) = p_completedAt (payments s pid)))"
proof (intro conjI allI impI)
  have v: "vested = vested_at (block_timestamp t) stream"
    using assms by (simp add: vested_at_def)
  {
    assume le: "vested \<le> s_claimedAmount stream"
    show "\<exists>e. claimStreamingPayment t pid s = Inl e"
    proof (cases "claimStreamingPayment t pid s")
      case (Inl e)
      then show ?thesis by simp
    next
      case (Inr s')
      from claimStreamingPayment_Inr[OF Inr] obtain c where
        "claimable_at (block_timestamp t) (streamingPayments s pid) = Inr c" and "0 < c"
        by blast
      with claimable_at_zero[of "block_timestamp t" stream c] le v assms(2)
      show ?thesis by simp
    qed
  }
  fix s'
  assume ok: "claimStreamingPayment t pid s = Inr s'"
  from claimStreamingPayment_Inr[OF ok] obtain c where
    c: "claimable_at (block_timestamp t) stream = Inr c" and pos: "0 < c" and
    log: "transfers (paymentToken s') = transfers (paymentToken s) @ [(this t, msg_sender t, c)]" and
    bal: "msg_sender t \<noteq> this t \<longrightarrow>
       balanceOf (paymentToken s') (msg_sender t) = balanceOf (paymentToken s) (msg_sender t) + c" and
    str: "streamingPayments s' = (streamingPayments s)(pid :=
           stream\<lparr>s_claimedAmount := s_claimedAmount stream + c,
              s_lastClaimTime := block_timestamp t\<rparr>)" and
    rel: "p_releasedAmount (payments s' pid) = s_claimedAmount stream + c" and
    comp: "if s_claimedAmount stream + c \<ge> s_totalAmount stream
           then p_isCompleted (payments s' pid)
                \<and> p_completedAt (payments s' pid) = block_timestamp t
           else p_isCompleted (payments s' pid) = p_isCompleted (payments s pid)
                \<and> p_completedAt (payments s' pid) = p_completedAt (payments s pid)"
    unfolding assms(2) by blast
  from claimable_at_Inr[OF c] v have ceq: "c = vested - s_claimedAmount stream" by simp
  have cl: "s_claimedAmount (streamingPayments s' pid) = s_claimedAmount stream + c"
    and lc: "s_lastClaimTime (streamingPayments s' pid) = block_timestamp t"
    by (simp_all add: str)
  from pos ceq show "0 < vested - s_claimedAmount stream" by simp
  from log ceq assms(1,2) show "transfers (paymentToken s') = transfers (paymentToken s) @
            [(this t, s_recipient stream, vested - s_claimedAmount stream)]" by simp
  {
    assume "s_recipient stream \<noteq> this t"
    with bal ceq assms(1,2) show "balanceOf (paymentToken s') (s_recipient stream) =
        balanceOf (paymentToken s) (s_recipient stream) + (vested - s_claimedAmount stream)"
      by simp
  }
  from cl ceq show "s_claimedAmount (streamingPayments s' pid) =
            s_claimedAmount stream + (vested - s_claimedAmount stream)" by simp
  from lc show "s_lastClaimTime (streamingPayments s' pid) = block_timestamp t" .
  from rel cl show "p_releasedAmount (payments s' pid) = s_claimedAmount (streamingPayments s' pid)"
    by simp
  from comp cl show "if s_claimedAmount (streamingPayments s' pid) \<ge> s_totalAmount stream
           then p_isCompleted (payments s' pid)
                \<and> p_completedAt (payments s' pid) = block_timestamp t
           else p_isCompleted (payments s' pid) = p_isCompleted (payments s pid)
                \<and> p_completedAt (payments s' pid) = p_completedAt (payments s pid)"
    by simp
qed

theorem claimStreamingPayment_vesting_witness:
  "s_recipient (streamingPayments stream_created 78) = msg_sender (tx_at 2 40)
   \<and> (\<exists>e. claimStreamingPayment (tx_at 2 0) 78 stream_created = Inl e)
   \<and> (\<exists>s'. claimStreamingPayment (tx_at 2 40) 78 stream_created = Inr s'
         \<and> transfers (paymentToken s') = [(1, 9, 100), (9, 2, 40)]
         \<and> balanceOf (paymentToken s') 2 = 40
         \<and> s_claimedAmount (streamingPayments s' 78) = 40
         \<and> \<not> p_isCompleted (payments s' 78))"
proof -
  have r: "s_recipient (streamingPayments stream_created 78) = msg_sender (tx_at 2 40)"
    "s_recipient (streamingPayments stream_created 78) = msg_sender (tx_at 2 0)"
    by (simp_all add: stream_created_stream tx_at_def)
  have ok: "\<exists>s'. claimStreamingPayment (tx_at 2 40) 78 stream_created = Inr s'"
    by (simp add: claimStreamingPayment_def stream_created_def createStreamingPayment_def eval_defs2)
  have before: "transfers (paymentToken stream_created) = [(1, 9, 100)]"
    "balanceOf (paymentToken stream_created) 2 = 0"
    "\<not> p_isCompleted (payments stream_created 78)"
    by (simp_all add: stream_created_def createStreamingPayment_def eval_defs2)
  from claimStreamingPayment_vesting[OF r(1) refl refl refl]
       claimStreamingPayment_vesting[OF r(2) refl refl refl] ok before
  show ?thesis
    by (auto simp: stream_created_stream tx_at_def)
qed

text \<open>
  Claim C8. Along any sequence of claims the claimed amount of a stream never decreases,
  the total is unchanged, and a claimed amount that is at most the total stays so. Every
  successful claim on the stream raises the claimed amount and leaves it at most the total.
\<close>

theorem claimedAmount_monotone_bounded:
  "s_claimedAmount (streamingPayments (claims cs s) pid)
      \<le> s_claimedAmount (streamingPayments (claims (cs @ cs') s) pid)
   \<and> s_totalAmount (streamingPayments (claims cs s) pid) = s_totalAmount (streamingPayments s pid)
   \<and> (s_claimedAmount (streamingPayments s pid) \<le> s_totalAmount (streamingPayments s pid) \<longrightarrow>
        s_claimedAmount (streamingPayments (claims cs s) pid)
          \<le> s_totalAmount (streamingPayments s pid))
   \<and> (\<forall>t s'. claimStreamingPayment t pid s = Inr s' \<longrightarrow>
        s_claimedAmount (streamingPayments s pid) < s_claimedAmount (streamingPayments s' pid)
        \<and> s_claimedAmount (streamingPayments s' pid) \<le> s_totalAmount (streamingPayments s' pid))"
proof (intro conjI allI impI)
  show "s_claimedAmount (streamingPayments (claims cs s) pid)
      \<le> s_claimedAmount (streamingPayments (claims (cs @ cs') s) pid)"
    using claims_invariant[of cs' "claims cs s" pid] by (simp add: claims_append)
  show "s_totalAmount (streamingPayments (claims cs s) pid) = s_totalAmount (streamingPayments s pid)"
    using claims_invariant[of cs s pid] by simp
  {
    assume "s_claimedAmount (streamingPayments s pid) \<le> s_totalAmount (streamingPayments s pid)"
    then show "s_claimedAmount (streamingPayments (claims cs s) pid)
          \<le> s_totalAmount (streamingPayments s pid)"
      using claims_invariant[of cs s pid] by simp
  }
  fix t s'
  assume ok: "claimStreamingPayment t pid s = Inr s'"
  from claimStreamingPayment_Inr[OF ok] obtain c where
    c: "claimable_at (block_timestamp t) (streamingPayments s pid) = Inr c" and pos: "0 < c" and
    str: "streamingPayments s' = (streamingPayments s)(pid :=
           (streamingPayments s pid)\<lparr>s_claimedAmount := s_claimedAmount (streamingPayments s pid) + c,
              s_lastClaimTime := block_timestamp t\<rparr>)"
    by blast
  from pos str show "s_claimedAmount (streamingPayments s pid) < s_claimedAmount (streamingPayments s' pid)"
    by simp
  from claimable_at_Inr[OF c] str
  show "s_claimedAmount (streamingPayments s' pid) \<le> s_totalAmount (streamingPayments s' pid)"
    by simp
qed

theorem claimedAmount_monotone_bounded_witness:
  "s_claimedAmount (streamingPayments stream_created 78)
      \<le> s_totalAmount (streamingPayments stream_created 78)
   \<and> s_claimedAmount (streamingPayments
        (claims [(tx_at 2 40, 78), (tx_at 2 20, 78)] stream_created) 78) = 40
   \<and> s_claimedAmount (streamingPayments
        (claims ([(tx_at 2 40, 78), (tx_at 2 20, 78)] @ [(tx_at 2 120, 78), (tx_at 2 150, 78)])
           stream_created) 78) = 100
   \<and> s_totalAmount (streamingPayments stream_created 78) = 100"
  using claimedAmount_monotone_bounded[of "[(tx_at 2 40, 78), (tx_at 2 20, 78)]" stream_created 78
          "[(tx_at 2 120, 78), (tx_at 2 150, 78)]"]
  by (simp add: claimStreamingPayment_def stream_created_def createStreamingPayment_def eval_defs2)

section \<open>Gasless payments and the nonce record\<close>

lemma bind_InrE:
  assumes "bind m f = Inr y"
  obtains x where "m = Inr x" "f x = Inr y"
  using assms by (cases m) (simp_all add: bind_def)

lemma require_InrE:
  assumes "require c msg k = Inr y"
  obtains "c" "k = Inr y"
  using assms by (cases c) (simp_all add: require_def)

lemma checked_add_Inr [simp]: "checked_add a b = Inr x \<longleftrightarrow> x = a + b \<and> a + b \<le> UINT256_MAX"
  by (auto simp: checked_add_def)

lemma checked_sub_Inr [simp]: "checked_sub a b = Inr x \<longleftrightarrow> x = a - b \<and> b \<le> a"
  by (auto simp: checked_sub_def)

lemma checked_mul_Inr [simp]: "checked_mul a b = Inr x \<longleftrightarrow> x = a * b \<and> a * b \<le> UINT256_MAX"
  by (auto simp: checked_mul_def)

lemma safeTransfer_nonces: "safeTransfer t dst amount s = Inr s' \<Longrightarrow> usedNonces s' = usedNonces s"
  by (auto simp: safeTransfer_def elim!: bind_InrE)

lemma safeTransferFrom_nonces:
  "safeTransferFrom src dst amount s = Inr s' \<Longrightarrow> usedNonces s' = usedNonces s"
  by (auto simp: safeTransferFrom_def elim!: bind_InrE)

lemma distribute_nonces: "distribute t pid A rs s = Inr s' \<Longrightarrow> usedNonces s' = usedNonces s"
proof (induction rs arbitrary: s)
  case Nil
  then show ?case by simp
next
  case (Cons r rs)
  then show ?case
    by (auto simp: Let_def elim!: bind_InrE dest!: safeTransfer_nonces)
qed

lemma processX402Payment_nonces:
  "processX402Payment twa t frm to val va vb nonce sg s = Inr s' \<Longrightarrow>
     usedNonces s' = (usedNonces s)(nonce := True)"
  by (auto simp: processX402Payment_def Let_def elim!: bind_InrE require_InrE split: option.splits)

lemma createSplitPayment_nonces:
  "createSplitPayment t rs A s = Inr (pid, s') \<Longrightarrow> usedNonces s' = usedNonces s"
  by (auto simp: createSplitPayment_def Let_def elim!: bind_InrE require_InrE
      dest!: safeTransferFrom_nonces distribute_nonces)

lemma createStreamingPayment_nonces:
  "createStreamingPayment t r A d s = Inr (pid, s') \<Longrightarrow> usedNonces s' = usedNonces s"
  by (auto simp: createStreamingPayment_def Let_def elim!: bind_InrE require_InrE
      dest!: safeTransferFrom_nonces)

lemma claimStreamingPayment_nonces:
  "claimStreamingPayment t pid s = Inr s' \<Longrightarrow> usedNonces s' = usedNonces s"
  by (auto simp: claimStreamingPayment_def Let_def elim!: bind_InrE require_InrE
      dest!: safeTransfer_nonces)

lemma createConditionalPayment_nonces:
  "createConditionalPayment t r A cc cd s = Inr (pid, s') \<Longrightarrow> usedNonces s' = usedNonces s"
  by (auto simp: createConditionalPayment_def Let_def elim!: bind_InrE require_InrE
      dest!: safeTransferFrom_nonces)

lemma releaseConditionalPayment_nonces:
  "releaseConditionalPayment sc t pid s = Inr s' \<Longrightarrow> usedNonces s' = usedNonces s"
  by (auto simp: releaseConditionalPayment_def Let_def elim!: bind_InrE require_InrE
      dest!: safeTransfer_nonces)

lemma createRecurringPayment_nonces:
  "createRecurringPayment t r A i n s = Inr (pid, s') \<Longrightarrow> usedNonces s' = usedNonces s"
  by (auto simp: createRecurringPayment_def Let_def elim!: bind_InrE require_InrE
      dest!: safeTransferFrom_nonces)

lemma executeRecurringPayment_nonces:
  "executeRecurringPayment t pid s = Inr s' \<Longrightarrow> usedNonces s' = usedNonces s"
  by (auto simp: executeRecurringPayment_def Let_def elim!: bind_InrE require_InrE
      dest!: safeTransfer_nonces)

lemma cancelPayment_nonces:
  "cancelPayment t pid s = Inr s' \<Longrightarrow> usedNonces s' = usedNonces s"
  by (auto simp: cancelPayment_def Let_def elim!: bind_InrE require_InrE
      dest!: safeTransfer_nonces split: if_splits)

lemma dispatch_nonces:
  "dispatch t c s = Inr s' \<Longrightarrow> usedNonces s n \<Longrightarrow> usedNonces s' n"
  by (cases c)
    (auto simp: dispatch_def elim!: bind_InrE
      dest: processX402Payment_nonces createSplitPayment_nonces createStreamingPayment_nonces
        claimStreamingPayment_nonces createConditionalPayment_nonces
        releaseConditionalPayment_nonces createRecurringPayment_nonces
        executeRecurringPayment_nonces cancelPayment_nonces)

lemma run_nonces: "usedNonces s n \<Longrightarrow> usedNonces (run cs s) n"
proof (induction cs arbitrary: s)
  case Nil
  then show ?case by simp
next
  case (Cons a cs)
  obtain t c where a: "a = (t, c)" by (cases a)
  show ?case
  proof (cases "dispatch t c s")
    case (Inl e)
    with a Cons show ?thesis by simp
  next
    case (Inr s')
    from dispatch_nonces[OF Inr Cons.prems] Cons.IH[of s'] a Inr show ?thesis by simp
  qed
qed

lemma processX402Payment_Inr:
  assumes "processX402Payment twa t frm to val va vb nonce sg s = Inr s'"
  shows "\<not> usedNonces s nonce \<and> va \<le> block_timestamp t \<and> block_timestamp t < vb
     \<and> usedNonces s' = (usedNonces s)(nonce := True)
     \<and> totalPaymentsProcessed s' = totalPaymentsProcessed s + 1
     \<and> totalVolumeProcessed s' = totalVolumeProcessed s + val
     \<and> twa frm to val va vb nonce sg (block_timestamp t) (paymentToken s) = Some (paymentToken s')"
  using assms
  by (auto simp: processX402Payment_def Let_def elim!: bind_InrE require_InrE split: option.splits)

lemmas eval_defs3 = eval_defs2 accepting_token_def

lemma x402_example_run:
  "processX402Payment accepting_token (tx_at 5 50) 1 2 100 0 1000 42 [] (deployed ledger2)
     = Inr x402_example"
  by (simp add: x402_example_def processX402Payment_def eval_defs3)

text \<open>
  Claim C2. \<open>processX402Payment\<close> rejects an authorization whose nonce was used
  before, with the reason "Nonce already used", and one submitted before \<open>validAfter\<close>
  or at or after \<open>validBefore\<close>; a rejected call leaves the state as it was. A
  successful call records the nonce and counts the payment and its volume. No later
  call of the router, whatever it is, clears the record, so every later submission with
  the same nonce fails with "Nonce already used": the same authorization succeeds at
  most once.
\<close>

theorem processX402Payment_replay_protection:
  "(usedNonces s nonce \<longrightarrow>
      processX402Payment twa t frm to val validAfter validBefore nonce signature s
        = Inl (Revert ''Nonce already used''))
   \<and> (\<not> usedNonces s nonce \<and> block_timestamp t < validAfter \<longrightarrow>
      processX402Payment twa t frm to val validAfter validBefore nonce signature s
        = Inl (Revert ''Payment not yet valid''))
   \<and> (\<not> usedNonces s nonce \<and> validAfter \<le> block_timestamp t \<and> validBefore \<le> block_timestamp t \<longrightarrow>
      processX402Payment twa t frm to val validAfter validBefore nonce signature s
        = Inl (Revert ''Payment expired''))
   \<and> (usedNonces s nonce \<or> block_timestamp t < validAfter \<or> validBefore \<le> block_timestamp t \<longrightarrow>
      run [(t, ProcessX402Payment twa frm to val validAfter validBefore nonce signature)] s = s)
   \<and> (\<forall>s'. processX402Payment twa t frm to val validAfter validBefore nonce signature s = Inr s' \<longrightarrow>
        usedNonces s' nonce
        \<and> totalPaymentsProcessed s' = totalPaymentsProcessed s + 1
        \<and> totalVolumeProcessed s' = totalVolumeProcessed s + val
        \<and> (\<forall>cs. usedNonces (run cs s') nonce)
        \<and> (\<forall>cs twa' t' frm' to' val' validAfter' validBefore' signature'.
              processX402Payment twa' t' frm' to' val' validAfter' validBefore' nonce signature'
                (run cs s') = Inl (Revert ''Nonce already used'')))"
proof (intro conjI allI impI)
  show "processX402Payment twa t frm to val validAfter validBefore nonce signature s
        = Inl (Revert ''Nonce already used'')" if "usedNonces s nonce"
    using that by (simp add: processX402Payment_def require_def)
  show "processX402Payment twa t frm to val validAfter validBefore nonce signature s
        = Inl (Revert ''Payment not yet valid'')"
    if "\<not> usedNonces s nonce \<and> block_timestamp t < validAfter"
    using that by (simp add: processX402Payment_def require_def)
  show "processX402Payment twa t frm to val validAfter validBefore nonce signature s
        = Inl (Revert ''Payment expired'')"
    if "\<not> usedNonces s nonce \<and> validAfter \<le> block_timestamp t \<and> validBefore \<le> block_timestamp t"
    using that by (simp add: processX402Payment_def require_def)
  show "run [(t, ProcessX402Payment twa frm to val validAfter validBefore nonce signature)] s = s"
    if "usedNonces s nonce \<or> block_timestamp t < validAfter \<or> validBefore \<le> block_timestamp t"
  proof -
    from that have "\<exists>e. processX402Payment twa t frm to val validAfter validBefore nonce signature s
        = Inl e"
      by (auto simp: processX402Payment_def require_def)
    then show ?thesis by (auto simp: dispatch_def)
  qed
next
  fix s'
  assume ok: "processX402Payment twa t frm to val validAfter validBefore nonce signature s = Inr s'"
  from processX402Payment_Inr[OF ok] show used: "usedNonces s' nonce"
    and "totalPaymentsProcessed s' = totalPaymentsProcessed s + 1"
    and "totalVolumeProcessed s' = totalVolumeProcessed s + val"
    by simp_all
  show "usedNonces (run cs s') nonce" for cs
    using used by (rule run_nonces)
  then show "processX402Payment twa' t' frm' to' val' validAfter' validBefore' nonce signature'
                (run cs s') = Inl (Revert ''Nonce already used'')"
    for cs twa' t' frm' to' val' validAfter' validBefore' signature'
    by (simp add: processX402Payment_def require_def)
qed

theorem processX402Payment_replay_protection_witness:
  "processX402Payment accepting_token (tx_at 5 50) 1 2 100 0 1000 42 [] (deployed ledger2)
     = Inr x402_example
   \<and> usedNonces x402_example 42
   \<and> balanceOf (paymentToken x402_example) 2 = 100
   \<and> processX402Payment accepting_token (tx_at 5 60) 1 2 100 0 1000 42 [] x402_example
       = Inl (Revert ''Nonce already used'')
   \<and> \<not> usedNonces x402_example 43 \<and> block_timestamp (tx_at 5 60) < 70
   \<and> processX402Payment accepting_token (tx_at 5 60) 1 2 100 70 1000 43 [] x402_example
       = Inl (Revert ''Payment not yet valid'')
   \<and> processX402Payment accepting_token (tx_at 5 60) 1 2 100 0 60 43 [] x402_example
       = Inl (Revert ''Payment expired'')"
proof -
  have fresh: "\<not> usedNonces x402_example 43" "usedNonces x402_example 42"
    "balanceOf (paymentToken x402_example) 2 = 100"
    by (simp_all add: x402_example_def processX402Payment_def eval_defs3)
  have time: "block_timestamp (tx_at 5 60) = 60" by (simp add: tx_at_def)
  from processX402Payment_replay_protection
         [of "deployed ledger2" 42 accepting_token "tx_at 5 50" 1 2 100 0 1000 "[]"]
       x402_example_run
  have again: "processX402Payment accepting_token (tx_at 5 60) 1 2 100 0 1000 42 [] (run [] x402_example)
       = Inl (Revert ''Nonce already used'')"
    by blast
  from processX402Payment_replay_protection
         [of x402_example 43 accepting_token "tx_at 5 60" 1 2 100 70 1000 "[]"]
       processX402Payment_replay_protection
         [of x402_example 43 accepting_token "tx_at 5 60" 1 2 100 0 60 "[]"]
       fresh time again x402_example_run
  show ?thesis by simp
qed

section \<open>Recurring payments\<close>

lemma executeRecurringPayment_Inr:
  assumes "executeRecurringPayment t pid s = Inr s'"
  shows "r_isActive (recurringPayments s pid)
     \<and> r_nextPaymentTime (recurringPayments s pid) \<le> block_timestamp t
     \<and> r_completedPayments (recurringPayments s pid) < r_totalPayments (recurringPayments s pid)
     \<and> transfers (paymentToken s') = transfers (paymentToken s) @
          [(this t, r_recipient (recurringPayments s pid), r_amount (recurringPayments s pid))]
     \<and> recurringPayments s' pid = (recurringPayments s pid)
          \<lparr>r_completedPayments := r_completedPayments (recurringPayments s pid) + 1,
           r_nextPaymentTime := block_timestamp t + r_interval (recurringPayments s pid),
           r_isActive := \<not> (r_completedPayments (recurringPayments s pid) + 1
                              \<ge> r_totalPayments (recurringPayments s pid))\<rparr>
     \<and> p_releasedAmount (payments s' pid) =
          p_releasedAmount (payments s pid) + r_amount (recurringPayments s pid)
     \<and> (if r_completedPayments (recurringPayments s pid) + 1
              \<ge> r_totalPayments (recurringPayments s pid)
         then p_isCompleted (payments s' pid) \<and> p_completedAt (payments s' pid) = block_timestamp t
         else p_isCompleted (payments s' pid) = p_isCompleted (payments s pid)
              \<and> p_completedAt (payments s' pid) = p_completedAt (payments s pid))"
proof -
  let ?r = "recurringPayments s pid"
  note defs = executeRecurringPayment_def Let_def
  from assms have a: "r_isActive ?r" "r_nextPaymentTime ?r \<le> block_timestamp t"
    "r_completedPayments ?r < r_totalPayments ?r"
    by (auto simp: defs elim!: require_InrE)
  from assms obtain s1 where tr: "safeTransfer t (r_recipient ?r) (r_amount ?r) s = Inr s1"
    and s': "s' = s1\<lparr>recurringPayments := (recurringPayments s1)(pid :=
                    (if r_completedPayments ?r + 1 \<ge> r_totalPayments ?r
                     then ?r\<lparr>r_completedPayments := r_completedPayments ?r + 1,
                            r_nextPaymentTime := block_timestamp t + r_interval ?r,
                            r_isActive := False\<rparr>
                     else ?r\<lparr>r_completedPayments := r_completedPayments ?r + 1,
                            r_nextPaymentTime := block_timestamp t + r_interval ?r\<rparr>)),
                 payments := (payments s1)(pid :=
                    (if r_completedPayments ?r + 1 \<ge> r_totalPayments ?r
                     then (payments s1 pid)\<lparr>p_releasedAmount :=
                              p_releasedAmount (payments s1 pid) + r_amount ?r,
                            p_isCompleted := True, p_completedAt := block_timestamp t\<rparr>
                     else (payments s1 pid)\<lparr>p_releasedAmount :=
                              p_releasedAmount (payments s1 pid) + r_amount ?r\<rparr>)),
                 totalVolumeProcessed := totalVolumeProcessed s1 + r_amount ?r\<rparr>"
    by (auto simp: defs elim!: require_InrE bind_InrE)
  from safeTransfer_Inr[OF tr] have s1: "s1 = s\<lparr>paymentToken := paymentToken s1\<rparr>"
    and lt: "ledger_transfer (this t) (r_recipient ?r) (r_amount ?r) (paymentToken s)
               = Inr (paymentToken s1)"
    by simp_all
  have p1: "payments s1 = payments s" "recurringPayments s1 = recurringPayments s"
    by (subst s1, simp)+
  have tok: "paymentToken s' = paymentToken s1" by (subst s') simp
  from ledger_transfer_Inr[OF lt] tok have
    log: "transfers (paymentToken s') = transfers (paymentToken s) @
          [(this t, r_recipient ?r, r_amount ?r)]" by simp
  have rec: "recurringPayments s' pid = ?r
          \<lparr>r_completedPayments := r_completedPayments ?r + 1,
           r_nextPaymentTime := block_timestamp t + r_interval ?r,
           r_isActive := \<not> (r_completedPayments ?r + 1 \<ge> r_totalPayments ?r)\<rparr>"
    using a(1) by (subst s') (simp add: p1)
  have pay: "payments s' pid =
                    (if r_completedPayments ?r + 1 \<ge> r_totalPayments ?r
                     then (payments s pid)\<lparr>p_releasedAmount :=
                              p_releasedAmount (payments s pid) + r_amount ?r,
                            p_isCompleted := True, p_completedAt := block_timestamp t\<rparr>
                     else (payments s pid)\<lparr>p_releasedAmount :=
                              p_releasedAmount (payments s pid) + r_amount ?r\<rparr>)"
    by (subst s') (simp add: p1)
  from pay have rel: "p_releasedAmount (payments s' pid) =
          p_releasedAmount (payments s pid) + r_amount ?r"
    and comp: "if r_completedPayments ?r + 1 \<ge> r_totalPayments ?r
         then p_isCompleted (payments s' pid) \<and> p_completedAt (payments s' pid) = block_timestamp t
         else p_isCompleted (payments s' pid) = p_isCompleted (payments s pid)
              \<and> p_completedAt (payments s' pid) = p_completedAt (payments s pid)"
    by simp_all
  from a log rec rel comp show ?thesis by blast
qed

lemma executeRecurringPayment_rejects:
  "(\<not> r_isActive (recurringPayments s pid) \<longrightarrow>
      executeRecurringPayment t pid s = Inl (Revert ''Not active''))
   \<and> (r_isActive (recurringPayments s pid)
        \<and> block_timestamp t < r_nextPaymentTime (recurringPayments s pid) \<longrightarrow>
      executeRecurringPayment t pid s = Inl (Revert ''Not yet due''))
   \<and> (r_isActive (recurringPayments s pid)
        \<and> r_nextPaymentTime (recurringPayments s pid) \<le> block_timestamp t
        \<and> r_totalPayments (recurringPayments s pid)
             \<le> r_completedPayments (recurringPayments s pid) \<longrightarrow>
      executeRecurringPayment t pid s = Inl (Revert ''All payments completed''))"
  by (simp add: executeRecurringPayment_def require_def Let_def)

lemma recurring_created_run:
  "createRecurringPayment (tx_at 1 0) 2 10 10 3 (deployed ledger2) = Inr (80, recurring_created)"
  by (simp add: recurring_created_def createRecurringPayment_def eval_defs3)

lemma recurring_created_record:
  "recurringPayments recurring_created 80 = \<lparr>r_id = 80, r_payer = 1, r_recipient = 2,
      r_amount = 10, r_interval = 10, r_nextPaymentTime = 0, r_totalPayments = 3,
      r_completedPayments = 0, r_isActive = True\<rparr>"
  "\<not> p_isCompleted (payments recurring_created 80)"
  "balanceOf (paymentToken recurring_created) 9 = 30"
  by (simp_all add: recurring_created_def createRecurringPayment_def eval_defs3)

lemma recurring_paid_late_run:
  "executeRecurringPayment (tx_at 7 5) 80 recurring_created = Inr recurring_paid_late"
  by (simp add: recurring_paid_late_def recurring_created_def executeRecurringPayment_def
      createRecurringPayment_def eval_defs3)

lemma recurring_paid_twice_run:
  "executeRecurringPayment (tx_at 7 15) 80 recurring_paid_late = Inr recurring_paid_twice"
  by (simp add: recurring_paid_twice_def recurring_paid_late_def recurring_created_def
      executeRecurringPayment_def createRecurringPayment_def eval_defs3)

lemma recurring_finished_run:
  "executeRecurringPayment (tx_at 7 30) 80 recurring_paid_twice = Inr recurring_finished"
  by (simp add: recurring_finished_def recurring_paid_twice_def recurring_paid_late_def
      recurring_created_def executeRecurringPayment_def createRecurringPayment_def eval_defs3)

text \<open>
  Claim C3 says that a successful \<open>executeRecurringPayment\<close> advances
  \<open>nextPaymentTime\<close> by exactly the interval. The contract sets it to the block
  timestamp plus the interval. A subscription due at time 0 with interval 10 and executed
  at time 5 is next due at 15, not at 10.
\<close>

theorem executeRecurringPayment_late_counterexample:
  "executeRecurringPayment (tx_at 7 5) 80 recurring_created = Inr recurring_paid_late
   \<and> r_nextPaymentTime (recurringPayments recurring_created 80) = 0
   \<and> r_interval (recurringPayments recurring_created 80) = 10
   \<and> r_nextPaymentTime (recurringPayments recurring_paid_late 80) = 15
   \<and> r_nextPaymentTime (recurringPayments recurring_paid_late 80)
       \<noteq> r_nextPaymentTime (recurringPayments recurring_created 80)
           + r_interval (recurringPayments recurring_created 80)"
  by (simp add: recurring_paid_late_def recurring_created_def executeRecurringPayment_def
      createRecurringPayment_def eval_defs3)

text \<open>
  Claim C3, amended. \<open>executeRecurringPayment\<close> fails when the subscription is not
  active, when it is not yet due, and when all payments are made. When it succeeds it
  transfers exactly \<open>amount\<close> to the recipient, increments \<open>completedPayments\<close>,
  which stays at most \<open>totalPayments\<close>, and sets \<open>nextPaymentTime\<close> to the block
  timestamp plus \<open>interval\<close>. It deactivates the subscription and completes the payment
  exactly when \<open>completedPayments\<close> has reached \<open>totalPayments\<close>. A subscription of
  three payments is completed by the third successful call and not before, successive
  calls are at least one interval apart, and a fourth call is rejected.
\<close>

theorem executeRecurringPayment_schedule:
  assumes "recurring = recurringPayments s pid"
  shows "(\<not> r_isActive recurring \<longrightarrow>
            executeRecurringPayment t pid s = Inl (Revert ''Not active''))
    \<and> (r_isActive recurring \<and> block_timestamp t < r_nextPaymentTime recurring \<longrightarrow>
            executeRecurringPayment t pid s = Inl (Revert ''Not yet due''))
    \<and> (r_isActive recurring \<and> r_nextPaymentTime recurring \<le> block_timestamp t
          \<and> r_totalPayments recurring \<le> r_completedPayments recurring \<longrightarrow>
            executeRecurringPayment t pid s = Inl (Revert ''All payments completed''))
    \<and> (\<forall>s'. executeRecurringPayment t pid s = Inr s' \<longrightarrow>
          transfers (paymentToken s') = transfers (paymentToken s) @
            [(this t, r_recipient recurring, r_amount recurring)]
        \<and> r_completedPayments (recurringPayments s' pid) = r_completedPayments recurring + 1
        \<and> r_completedPayments (recurringPayments s' pid) \<le> r_totalPayments recurring
        \<and> r_nextPaymentTime (recurringPayments s' pid) = block_timestamp t + r_interval recurring
        \<and> r_totalPayments (recurringPayments s' pid) = r_totalPayments recurring
        \<and> r_amount (recurringPayments s' pid) = r_amount recurring
        \<and> r_interval (recurringPayments s' pid) = r_interval recurring
        \<and> (if r_completedPayments (recurringPayments s' pid) = r_totalPayments recurring
            then \<not> r_isActive (recurringPayments s' pid) \<and> p_isCompleted (payments s' pid)
                 \<and> p_completedAt (payments s' pid) = block_timestamp t
            else r_isActive (recurringPayments s' pid)
                 \<and> p_isCompleted (payments s' pid) = p_isCompleted (payments s pid)))
    \<and> (r_totalPayments recurring = 3 \<and> r_completedPayments recurring = 0
          \<and> \<not> p_isCompleted (payments s pid) \<longrightarrow>
        (\<forall>t1 t2 t3 t4 s1 s2 s3.
           executeRecurringPayment t1 pid s = Inr s1
           \<and> executeRecurringPayment t2 pid s1 = Inr s2
           \<and> executeRecurringPayment t3 pid s2 = Inr s3 \<longrightarrow>
             \<not> p_isCompleted (payments s1 pid) \<and> \<not> p_isCompleted (payments s2 pid)
             \<and> p_isCompleted (payments s3 pid) \<and> \<not> r_isActive (recurringPayments s3 pid)
             \<and> r_completedPayments (recurringPayments s3 pid) = 3
             \<and> block_timestamp t1 + r_interval recurring \<le> block_timestamp t2
             \<and> block_timestamp t2 + r_interval recurring \<le> block_timestamp t3
             \<and> executeRecurringPayment t4 pid s3 = Inl (Revert ''Not active'')))"
proof -
  note rej = executeRecurringPayment_rejects[of s pid t, folded assms]
  have eff: "transfers (paymentToken s') = transfers (paymentToken s) @
            [(this t, r_recipient recurring, r_amount recurring)]
        \<and> r_completedPayments (recurringPayments s' pid) = r_completedPayments recurring + 1
        \<and> r_completedPayments (recurringPayments s' pid) \<le> r_totalPayments recurring
        \<and> r_nextPaymentTime (recurringPayments s' pid) = block_timestamp t + r_interval recurring
        \<and> r_totalPayments (recurringPayments s' pid) = r_totalPayments recurring
        \<and> r_amount (recurringPayments s' pid) = r_amount recurring
        \<and> r_interval (recurringPayments s' pid) = r_interval recurring
        \<and> (if r_completedPayments (recurringPayments s' pid) = r_totalPayments recurring
            then \<not> r_isActive (recurringPayments s' pid) \<and> p_isCompleted (payments s' pid)
                 \<and> p_completedAt (payments s' pid) = block_timestamp t
            else r_isActive (recurringPayments s' pid)
                 \<and> p_isCompleted (payments s' pid) = p_isCompleted (payments s pid))"
    if ok: "executeRecurringPayment t pid s = Inr s'" for s'
    using executeRecurringPayment_Inr[OF ok, folded assms]
    by (auto split: if_splits)
  have three: "\<not> p_isCompleted (payments s1 pid) \<and> \<not> p_isCompleted (payments s2 pid)
             \<and> p_isCompleted (payments s3 pid) \<and> \<not> r_isActive (recurringPayments s3 pid)
             \<and> r_completedPayments (recurringPayments s3 pid) = 3
             \<and> block_timestamp t1 + r_interval recurring \<le> block_timestamp t2
             \<and> block_timestamp t2 + r_interval recurring \<le> block_timestamp t3
             \<and> executeRecurringPayment t4 pid s3 = Inl (Revert ''Not active'')"
    if init: "r_totalPayments recurring = 3 \<and> r_completedPayments recurring = 0
          \<and> \<not> p_isCompleted (payments s pid)"
      and runs: "executeRecurringPayment t1 pid s = Inr s1
           \<and> executeRecurringPayment t2 pid s1 = Inr s2
           \<and> executeRecurringPayment t3 pid s2 = Inr s3"
    for t1 t2 t3 t4 s1 s2 s3
  proof -
    from runs have r1: "executeRecurringPayment t1 pid s = Inr s1"
      and r2: "executeRecurringPayment t2 pid s1 = Inr s2"
      and r3: "executeRecurringPayment t3 pid s2 = Inr s3" by simp_all
    from executeRecurringPayment_Inr[OF r1, folded assms] init have
      k1: "recurringPayments s1 pid = recurring\<lparr>r_completedPayments := 1,
             r_nextPaymentTime := block_timestamp t1 + r_interval recurring, r_isActive := True\<rparr>"
      and c1: "\<not> p_isCompleted (payments s1 pid)"
      by simp_all
    from executeRecurringPayment_Inr[OF r2] k1 init c1 have
      k2: "recurringPayments s2 pid = recurring\<lparr>r_completedPayments := 2,
             r_nextPaymentTime := block_timestamp t2 + r_interval recurring, r_isActive := True\<rparr>"
      and c2: "\<not> p_isCompleted (payments s2 pid)"
      and d2: "block_timestamp t1 + r_interval recurring \<le> block_timestamp t2"
      by simp_all
    from executeRecurringPayment_Inr[OF r3] k2 init have
      k3: "recurringPayments s3 pid = recurring\<lparr>r_completedPayments := 3,
             r_nextPaymentTime := block_timestamp t3 + r_interval recurring, r_isActive := False\<rparr>"
      and c3: "p_isCompleted (payments s3 pid)"
      and d3: "block_timestamp t2 + r_interval recurring \<le> block_timestamp t3"
      by simp_all
    from k3 have "executeRecurringPayment t4 pid s3 = Inl (Revert ''Not active'')"
      by (simp add: executeRecurringPayment_def require_def Let_def)
    with c1 c2 c3 d2 d3 k3 show ?thesis by simp
  qed
  from rej eff three show ?thesis by blast
qed

theorem executeRecurringPayment_schedule_witness:
  "r_totalPayments (recurringPayments recurring_created 80) = 3
   \<and> r_completedPayments (recurringPayments recurring_created 80) = 0
   \<and> \<not> p_isCompleted (payments recurring_created 80)
   \<and> executeRecurringPayment (tx_at 7 5) 80 recurring_created = Inr recurring_paid_late
   \<and> executeRecurringPayment (tx_at 7 15) 80 recurring_paid_late = Inr recurring_paid_twice
   \<and> executeRecurringPayment (tx_at 7 30) 80 recurring_paid_twice = Inr recurring_finished
   \<and> \<not> p_isCompleted (payments recurring_paid_late 80)
   \<and> \<not> p_isCompleted (payments recurring_paid_twice 80)
   \<and> p_isCompleted (payments recurring_finished 80)
   \<and> r_nextPaymentTime (recurringPayments recurring_paid_late 80) = 15
   \<and> transfers (paymentToken recurring_paid_late) = [(1, 9, 30), (9, 2, 10)]
   \<and> executeRecurringPayment (tx_at 7 40) 80 recurring_finished = Inl (Revert ''Not active'')
   \<and> executeRecurringPayment (tx_at 7 14) 80 recurring_paid_late = Inl (Revert ''Not yet due'')"
proof -
  note th = executeRecurringPayment_schedule
    [where s = recurring_created and pid = 80 and t = "tx_at 7 5", OF refl]
  note th2 = executeRecurringPayment_schedule
    [where s = recurring_paid_late and pid = 80 and t = "tx_at 7 14", OF refl]
  have init: "r_totalPayments (recurringPayments recurring_created 80) = 3
     \<and> r_completedPayments (recurringPayments recurring_created 80) = 0
     \<and> \<not> p_isCompleted (payments recurring_created 80)"
    by (simp add: recurring_created_record)
  have runs: "executeRecurringPayment (tx_at 7 5) 80 recurring_created = Inr recurring_paid_late
     \<and> executeRecurringPayment (tx_at 7 15) 80 recurring_paid_late = Inr recurring_paid_twice
     \<and> executeRecurringPayment (tx_at 7 30) 80 recurring_paid_twice = Inr recurring_finished"
    by (simp add: recurring_paid_late_run recurring_paid_twice_run recurring_finished_run)
  have log: "transfers (paymentToken recurring_created) = [(1, 9, 30)]"
    by (simp add: recurring_created_def createRecurringPayment_def eval_defs3)
  from th init have "\<forall>t1 t2 t3 t4 s1 s2 s3.
           executeRecurringPayment t1 80 recurring_created = Inr s1
           \<and> executeRecurringPayment t2 80 s1 = Inr s2
           \<and> executeRecurringPayment t3 80 s2 = Inr s3 \<longrightarrow>
             \<not> p_isCompleted (payments s1 80) \<and> \<not> p_isCompleted (payments s2 80)
             \<and> p_isCompleted (payments s3 80)
             \<and> executeRecurringPayment t4 80 s3 = Inl (Revert ''Not active'')"
    by blast
  with runs have a: "\<not> p_isCompleted (payments recurring_paid_late 80)
     \<and> \<not> p_isCompleted (payments recurring_paid_twice 80)
     \<and> p_isCompleted (payments recurring_finished 80)
     \<and> executeRecurringPayment (tx_at 7 40) 80 recurring_finished = Inl (Revert ''Not active'')"
    by blast
  from th have "\<forall>s'. executeRecurringPayment (tx_at 7 5) 80 recurring_created = Inr s' \<longrightarrow>
      transfers (paymentToken s') = transfers (paymentToken recurring_created) @
            [(this (tx_at 7 5), r_recipient (recurringPayments recurring_created 80),
              r_amount (recurringPayments recurring_created 80))]
      \<and> r_nextPaymentTime (recurringPayments s' 80) =
           block_timestamp (tx_at 7 5) + r_interval (recurringPayments recurring_created 80)"
    by blast
  with recurring_paid_late_run have
    "transfers (paymentToken recurring_paid_late) = transfers (paymentToken recurring_created) @
            [(this (tx_at 7 5), r_recipient (recurringPayments recurring_created 80),
              r_amount (recurringPayments recurring_created 80))]
      \<and> r_nextPaymentTime (recurringPayments recurring_paid_late 80) =
           block_timestamp (tx_at 7 5) + r_interval (recurringPayments recurring_created 80)"
    by blast
  then have b: "r_nextPaymentTime (recurringPayments recurring_paid_late 80) = 15
     \<and> transfers (paymentToken recurring_paid_late) = [(1, 9, 30), (9, 2, 10)]"
    by (simp add: recurring_created_record log tx_at_def)
  have act: "r_isActive (recurringPayments recurring_paid_late 80)"
    by (simp add: recurring_paid_late_def recurring_created_def executeRecurringPayment_def
      createRecurringPayment_def eval_defs3)
  from th2 have "r_isActive (recurringPayments recurring_paid_late 80)
      \<and> block_timestamp (tx_at 7 14) < r_nextPaymentTime (recurringPayments recurring_paid_late 80)
      \<longrightarrow> executeRecurringPayment (tx_at 7 14) 80 recurring_paid_late = Inl (Revert ''Not yet due'')"
    by blast
  with act b have c: "executeRecurringPayment (tx_at 7 14) 80 recurring_paid_late
      = Inl (Revert ''Not yet due'')"
    by (simp add: tx_at_def)
  from a b c init runs show ?thesis by simp
qed

section \<open>Cancellation and release\<close>

lemmas stream_defs = stream_drained_def stream_cancelled_def stream_claimed_def two_escrows_def
  stream_created_def createStreamingPayment_def createConditionalPayment_def
  claimStreamingPayment_def cancelPayment_def

text \<open>
  What a successful \<open>cancelPayment\<close> does: the caller is the payer of a payment that
  is neither completed nor cancelled, the payment becomes cancelled, the unreleased
  remainder goes back to the payer, and the streaming records stay as they are.
\<close>

lemma cancelPayment_refunds:
  assumes "cancelPayment t pid s = Inr s'"
  shows "p_payer (payments s pid) = msg_sender t
     \<and> \<not> p_isCompleted (payments s pid) \<and> \<not> p_isCancelled (payments s pid)
     \<and> p_isCancelled (payments s' pid)
     \<and> transfers (paymentToken s') = transfers (paymentToken s) @
          (if p_releasedAmount (payments s pid) < p_totalAmount (payments s pid)
           then [(this t, msg_sender t,
                  p_totalAmount (payments s pid) - p_releasedAmount (payments s pid))]
           else [])
     \<and> streamingPayments s' = streamingPayments s"
proof -
  let ?p = "payments s pid"
  let ?s1 = "s\<lparr>payments := (payments s)(pid :=
                ?p\<lparr>p_isCancelled := True, p_completedAt := block_timestamp t\<rparr>)\<rparr>"
  from assms have a: "p_payer ?p = msg_sender t" "\<not> p_isCompleted ?p" "\<not> p_isCancelled ?p"
    "p_releasedAmount ?p \<le> p_totalAmount ?p"
    by (auto simp: cancelPayment_def Let_def elim!: require_InrE bind_InrE)
  from assms obtain s2 where
    s2: "(if p_totalAmount ?p - p_releasedAmount ?p > 0
          then safeTransfer t (msg_sender t) (p_totalAmount ?p - p_releasedAmount ?p) ?s1
          else Inr ?s1) = Inr s2"
    and s': "s' = (if p_paymentType ?p = RECURRING
          then s2\<lparr>recurringPayments := (recurringPayments s2)(pid :=
                     (recurringPayments s2 pid)\<lparr>r_isActive := False\<rparr>)\<rparr>
          else s2)"
    by (auto simp: cancelPayment_def Let_def elim!: require_InrE bind_InrE)
  have keep: "payments s' = payments s2" "streamingPayments s' = streamingPayments s2"
    "paymentToken s' = paymentToken s2"
    by (simp_all add: s')
  show ?thesis
  proof (cases "p_releasedAmount ?p < p_totalAmount ?p")
    case True
    with s2 have tr: "safeTransfer t (msg_sender t) (p_totalAmount ?p - p_releasedAmount ?p) ?s1
        = Inr s2" by simp
    from safeTransfer_Inr[OF tr] have e: "s2 = ?s1\<lparr>paymentToken := paymentToken s2\<rparr>"
      and lt: "ledger_transfer (this t) (msg_sender t) (p_totalAmount ?p - p_releasedAmount ?p)
                 (paymentToken s) = Inr (paymentToken s2)"
      by simp_all
    have "payments s2 pid = ?p\<lparr>p_isCancelled := True, p_completedAt := block_timestamp t\<rparr>"
      "streamingPayments s2 = streamingPayments s"
      by (subst e, simp)+
    with ledger_transfer_Inr[OF lt] keep a True show ?thesis by simp
  next
    case False
    with s2 have "s2 = ?s1" by simp
    with keep a False show ?thesis by simp
  qed
qed

text \<open>
  Claim C1 says that after \<open>cancelPayment\<close> every claim on a cancelled stream fails.
  \<open>cancelPayment\<close> refunds \<open>totalAmount - releasedAmount\<close> (60 of the stream of
  100, of which 40 were claimed) and deactivates the schedule of a recurring payment,
  but it leaves the stream untouched and \<open>claimStreamingPayment\<close> does not read
  \<open>isCancelled\<close>. The recipient's claim at time 100 succeeds and pays 60 more, out of
  the escrow of the conditional payment of account 3.
\<close>

theorem claim_after_cancel_still_pays:
  "createConditionalPayment (tx_at 3 0) 4 100 0 [] stream_created = Inr (79, two_escrows)
   \<and> claimStreamingPayment (tx_at 2 40) 78 two_escrows = Inr stream_claimed
   \<and> p_totalAmount (payments stream_claimed 78) = 100
   \<and> p_releasedAmount (payments stream_claimed 78) = 40
   \<and> cancelPayment (tx_at 1 50) 78 stream_claimed = Inr stream_cancelled
   \<and> p_isCancelled (payments stream_cancelled 78)
   \<and> transfers (paymentToken stream_cancelled)
       = [(1, 9, 100), (3, 9, 100), (9, 2, 40), (9, 1, 60)]
   \<and> claimStreamingPayment (tx_at 2 100) 78 stream_cancelled = Inr stream_drained
   \<and> transfers (paymentToken stream_drained)
       = [(1, 9, 100), (3, 9, 100), (9, 2, 40), (9, 1, 60), (9, 2, 60)]
   \<and> balanceOf (paymentToken stream_drained) 9 = 40
   \<and> c_amount (conditionalPayments stream_drained 79) = 100
   \<and> \<not> c_isReleased (conditionalPayments stream_drained 79)"
  by (simp add: stream_defs eval_defs3)

lemma checkCondition_zero:
  "c_conditionContract cp = 0 \<Longrightarrow> checkCondition staticcall cp = Inr ()"
  by (simp add: checkCondition_def)

lemma releaseConditionalPayment_zero:
  assumes "c_conditionContract (conditionalPayments s pid) = 0"
    and "\<not> c_isReleased (conditionalPayments s pid)"
  shows "releaseConditionalPayment staticcall t pid s =
     bind (safeTransfer t (c_recipient (conditionalPayments s pid))
             (c_amount (conditionalPayments s pid))
             (s\<lparr>conditionalPayments := (conditionalPayments s)(pid :=
                   (conditionalPayments s pid)\<lparr>c_isReleased := True\<rparr>),
                payments := (payments s)(pid :=
                   (payments s pid)\<lparr>p_releasedAmount := c_amount (conditionalPayments s pid),
                      p_isCompleted := True, p_completedAt := block_timestamp t\<rparr>)\<rparr>))
       (\<lambda>s2. bind (checked_add (totalVolumeProcessed s2) (c_amount (conditionalPayments s pid)))
          (\<lambda>v. Inr (s2\<lparr>totalVolumeProcessed := v\<rparr>)))"
  using assms
  by (simp add: releaseConditionalPayment_def Let_def require_def checkCondition_zero bind_def)

lemma conditional_created_run:
  "createConditionalPayment (tx_at 3 0) 4 100 0 [] (deployed ledger2)
     = Inr (79, conditional_created)"
  by (simp add: conditional_created_def createConditionalPayment_def eval_defs3)

lemma conditional_created_record:
  "conditionalPayments conditional_created 79 = \<lparr>c_paymentId = 79, c_recipient = 4,
      c_amount = 100, c_conditionContract = 0, c_conditionData = [], c_isReleased = False\<rparr>"
  "balanceOf (paymentToken conditional_created) 9 = 100"
  "balanceOf (paymentToken conditional_created) 4 = 0"
  "totalVolumeProcessed conditional_created = 0"
  "transfers (paymentToken conditional_created) = [(3, 9, 100)]"
  by (simp_all add: conditional_created_def createConditionalPayment_def eval_defs3)

text \<open>
  Claim C10 says that a conditional payment without a condition contract is released
  provided only that \<open>isReleased\<close> is still false. The release also needs the token
  transfer out of the router to succeed. \<open>cancelPayment\<close> refunds the payer without
  latching \<open>isReleased\<close>: after the payer of the payment of 100 has cancelled it, the
  router holds nothing, \<open>isReleased\<close> is still false, and the release reverts in the
  transfer.
\<close>

theorem release_after_cancel_counterexample:
  "cancelPayment (tx_at 3 10) 79 conditional_created = Inr conditional_cancelled
   \<and> c_conditionContract (conditionalPayments conditional_cancelled 79) = 0
   \<and> \<not> c_isReleased (conditionalPayments conditional_cancelled 79)
   \<and> c_amount (conditionalPayments conditional_cancelled 79) = 100
   \<and> transfers (paymentToken conditional_cancelled) = [(3, 9, 100), (9, 3, 100)]
   \<and> balanceOf (paymentToken conditional_cancelled) 9 = 0
   \<and> releaseConditionalPayment never_met (tx_at 8 20) 79 conditional_cancelled
         = Inl TransferFailed"
  by (simp add: conditional_cancelled_def conditional_created_def cancelPayment_def
      createConditionalPayment_def releaseConditionalPayment_def checkCondition_def
      never_met_def eval_defs3)

text \<open>
  Claim C10, amended. For a conditional payment whose condition contract is the zero
  address and which is not yet released, \<open>releaseConditionalPayment\<close> does not evaluate
  any condition and does not look at the caller: its result is the same for every caller
  and every outcome of a \<open>staticcall\<close>, and no \<open>require\<close> rejects it. It succeeds
  whenever the router holds the amount and the volume counter has room, and it fails in
  the token transfer when the router holds less than the amount; the transfer and the
  checked addition are the only ways left for it to fail. On success the full amount
  goes to the recipient and \<open>isReleased\<close> is latched, after which every release is
  rejected with "Already released".
\<close>

theorem releaseConditionalPayment_without_condition:
  assumes "condPayment = conditionalPayments s pid"
    and "c_conditionContract condPayment = 0"
    and "\<not> c_isReleased condPayment"
  shows "releaseConditionalPayment staticcall' (t\<lparr>msg_sender := caller\<rparr>) pid s
           = releaseConditionalPayment staticcall t pid s
    \<and> (\<forall>msg. releaseConditionalPayment staticcall t pid s \<noteq> Inl (Revert msg))
    \<and> (c_amount condPayment \<le> balanceOf (paymentToken s) (this t)
         \<and> totalVolumeProcessed s + c_amount condPayment \<le> UINT256_MAX \<longrightarrow>
         (\<exists>s'. releaseConditionalPayment staticcall t pid s = Inr s'))
    \<and> (balanceOf (paymentToken s) (this t) < c_amount condPayment \<longrightarrow>
         releaseConditionalPayment staticcall t pid s = Inl TransferFailed)
    \<and> (\<forall>s'. releaseConditionalPayment staticcall t pid s = Inr s' \<longrightarrow>
          transfers (paymentToken s') = transfers (paymentToken s) @
            [(this t, c_recipient condPayment, c_amount condPayment)]
        \<and> (c_recipient condPayment \<noteq> this t \<longrightarrow>
             balanceOf (paymentToken s') (c_recipient condPayment) =
               balanceOf (paymentToken s) (c_recipient condPayment) + c_amount condPayment)
        \<and> c_isReleased (conditionalPayments s' pid)
        \<and> p_releasedAmount (payments s' pid) = c_amount condPayment
        \<and> p_isCompleted (payments s' pid)
        \<and> (\<forall>staticcall'' t''. releaseConditionalPayment staticcall'' t'' pid s'
               = Inl (Revert ''Already released'')))"
proof -
  let ?mid = "s\<lparr>conditionalPayments := (conditionalPayments s)(pid :=
                   condPayment\<lparr>c_isReleased := True\<rparr>),
                payments := (payments s)(pid :=
                   (payments s pid)\<lparr>p_releasedAmount := c_amount condPayment,
                      p_isCompleted := True, p_completedAt := block_timestamp t\<rparr>)\<rparr>"
  have unf: "releaseConditionalPayment sc t' pid s =
     bind (safeTransfer t' (c_recipient condPayment) (c_amount condPayment)
             (s\<lparr>conditionalPayments := (conditionalPayments s)(pid :=
                   condPayment\<lparr>c_isReleased := True\<rparr>),
                payments := (payments s)(pid :=
                   (payments s pid)\<lparr>p_releasedAmount := c_amount condPayment,
                      p_isCompleted := True, p_completedAt := block_timestamp t'\<rparr>)\<rparr>))
       (\<lambda>s2. bind (checked_add (totalVolumeProcessed s2) (c_amount condPayment))
          (\<lambda>v. Inr (s2\<lparr>totalVolumeProcessed := v\<rparr>)))" for sc t'
    using releaseConditionalPayment_zero[of s pid sc t'] assms by simp
  have indep: "releaseConditionalPayment staticcall' (t\<lparr>msg_sender := caller\<rparr>) pid s
           = releaseConditionalPayment staticcall t pid s"
    by (simp add: unf safeTransfer_def)
  have norev: "releaseConditionalPayment staticcall t pid s \<noteq> Inl (Revert msg)" for msg
    by (simp add: unf safeTransfer_def ledger_transfer_def bind_def checked_add_def Let_def
        split: sum.splits)
  have succ: "\<exists>s'. releaseConditionalPayment staticcall t pid s = Inr s'"
    if "c_amount condPayment \<le> balanceOf (paymentToken s) (this t)
         \<and> totalVolumeProcessed s + c_amount condPayment \<le> UINT256_MAX"
    using that
    by (simp add: unf safeTransfer_def ledger_transfer_def bind_def checked_add_def Let_def)
  have short: "releaseConditionalPayment staticcall t pid s = Inl TransferFailed"
    if "balanceOf (paymentToken s) (this t) < c_amount condPayment"
    using that
    by (simp add: unf safeTransfer_def ledger_transfer_def bind_def)
  have eff: "transfers (paymentToken s') = transfers (paymentToken s) @
            [(this t, c_recipient condPayment, c_amount condPayment)]
        \<and> (c_recipient condPayment \<noteq> this t \<longrightarrow>
             balanceOf (paymentToken s') (c_recipient condPayment) =
               balanceOf (paymentToken s) (c_recipient condPayment) + c_amount condPayment)
        \<and> c_isReleased (conditionalPayments s' pid)
        \<and> p_releasedAmount (payments s' pid) = c_amount condPayment
        \<and> p_isCompleted (payments s' pid)
        \<and> (\<forall>staticcall'' t''. releaseConditionalPayment staticcall'' t'' pid s'
               = Inl (Revert ''Already released''))"
    if ok: "releaseConditionalPayment staticcall t pid s = Inr s'" for s'
  proof -
    from ok obtain s2 where tr: "safeTransfer t (c_recipient condPayment) (c_amount condPayment)
        ?mid = Inr s2" and s': "s' = s2\<lparr>totalVolumeProcessed :=
           totalVolumeProcessed s2 + c_amount condPayment\<rparr>"
      by (auto simp: unf elim!: bind_InrE)
    from safeTransfer_Inr[OF tr] have s2: "s2 = ?mid\<lparr>paymentToken := paymentToken s2\<rparr>"
      and lt: "ledger_transfer (this t) (c_recipient condPayment) (c_amount condPayment)
                 (paymentToken s) = Inr (paymentToken s2)"
      by simp_all
    have tok: "paymentToken s' = paymentToken s2" by (subst s') simp
    have c: "conditionalPayments s' pid = condPayment\<lparr>c_isReleased := True\<rparr>"
      by (subst s', subst s2) simp
    have p: "payments s' pid = (payments s pid)\<lparr>p_releasedAmount := c_amount condPayment,
                      p_isCompleted := True, p_completedAt := block_timestamp t\<rparr>"
      by (subst s', subst s2) simp
    have latch: "releaseConditionalPayment sc t' pid s' = Inl (Revert ''Already released'')"
      for sc t'
      by (simp add: releaseConditionalPayment_def Let_def require_def c)
    from ledger_transfer_Inr[OF lt] tok c p latch show ?thesis by simp
  qed
  from indep norev succ short eff show ?thesis by blast
qed

theorem releaseConditionalPayment_without_condition_witness:
  "c_conditionContract (conditionalPayments conditional_created 79) = 0
   \<and> \<not> c_isReleased (conditionalPayments conditional_created 79)
   \<and> c_amount (conditionalPayments conditional_created 79)
        \<le> balanceOf (paymentToken conditional_created) (this (tx_at 8 20))
   \<and> (\<exists>s'. releaseConditionalPayment never_met (tx_at 8 20) 79 conditional_created = Inr s'
         \<and> transfers (paymentToken s') = [(3, 9, 100), (9, 4, 100)]
         \<and> balanceOf (paymentToken s') 4 = 100
         \<and> c_isReleased (conditionalPayments s' 79)
         \<and> releaseConditionalPayment never_met (tx_at 8 30) 79 s'
              = Inl (Revert ''Already released''))
   \<and> c_conditionContract (conditionalPayments conditional_cancelled 79) = 0
   \<and> \<not> c_isReleased (conditionalPayments conditional_cancelled 79)
   \<and> balanceOf (paymentToken conditional_cancelled) (this (tx_at 8 20))
        < c_amount (conditionalPayments conditional_cancelled 79)
   \<and> releaseConditionalPayment never_met (tx_at 8 20) 79 conditional_cancelled
        = Inl TransferFailed"
proof -
  note th' = releaseConditionalPayment_without_condition
    [where s = conditional_cancelled and pid = 79 and t = "tx_at 8 20"
       and staticcall = never_met, OF refl]
  have h': "c_conditionContract (conditionalPayments conditional_cancelled 79) = 0"
    "\<not> c_isReleased (conditionalPayments conditional_cancelled 79)"
    by (simp_all add: conditional_cancelled_def conditional_created_def cancelPayment_def
        createConditionalPayment_def eval_defs3)
  have short: "balanceOf (paymentToken conditional_cancelled) (this (tx_at 8 20))
        < c_amount (conditionalPayments conditional_cancelled 79)"
    by (simp add: conditional_cancelled_def conditional_created_def cancelPayment_def
        createConditionalPayment_def eval_defs3)
  from th'[OF h'] short have fails:
    "releaseConditionalPayment never_met (tx_at 8 20) 79 conditional_cancelled
        = Inl TransferFailed"
    by blast
  note th = releaseConditionalPayment_without_condition
    [where s = conditional_created and pid = 79 and t = "tx_at 8 20"
       and staticcall = never_met, OF refl]
  have h: "c_conditionContract (conditionalPayments conditional_created 79) = 0"
    "\<not> c_isReleased (conditionalPayments conditional_created 79)"
    by (simp_all add: conditional_created_record)
  have fund: "c_amount (conditionalPayments conditional_created 79)
        \<le> balanceOf (paymentToken conditional_created) (this (tx_at 8 20))
      \<and> totalVolumeProcessed conditional_created
           + c_amount (conditionalPayments conditional_created 79) \<le> UINT256_MAX"
    by (simp add: conditional_created_record tx_at_def UINT256_MAX_def)
  from th[OF h] fund obtain s' where
    ok: "releaseConditionalPayment never_met (tx_at 8 20) 79 conditional_created = Inr s'"
    by blast
  from th[OF h] ok have
    "transfers (paymentToken s') = transfers (paymentToken conditional_created) @
        [(this (tx_at 8 20), c_recipient (conditionalPayments conditional_created 79),
          c_amount (conditionalPayments conditional_created 79))]
     \<and> (c_recipient (conditionalPayments conditional_created 79) \<noteq> this (tx_at 8 20) \<longrightarrow>
          balanceOf (paymentToken s') (c_recipient (conditionalPayments conditional_created 79)) =
            balanceOf (paymentToken conditional_created)
              (c_recipient (conditionalPayments conditional_created 79))
            + c_amount (conditionalPayments conditional_created 79))
     \<and> c_isReleased (conditionalPayments s' 79)
     \<and> releaseConditionalPayment never_met (tx_at 8 30) 79 s' = Inl (Revert ''Already released'')"
    by blast
  then have "transfers (paymentToken s') = [(3, 9, 100), (9, 4, 100)]
         \<and> balanceOf (paymentToken s') 4 = 100
         \<and> c_isReleased (conditionalPayments s' 79)
         \<and> releaseConditionalPayment never_met (tx_at 8 30) 79 s'
              = Inl (Revert ''Already released'')"
    by (simp add: conditional_created_record tx_at_def)
  with ok h fund h' short fails show ?thesis by blast
qed

section \<open>Workflow execution\<close>

lemma walk_stopped:
  "walk C t wid eid steps (i, False, ex, evs, w) = Some (Inr (ex, evs, w))"
  by (subst walk.simps) simp

lemma walk_iterate:
  assumes "i < length steps"
    and "executeStep C t (steps ! i) w = Inr (ok, n, w')"
  shows "walk C t wid eid steps (i, True, ex, evs, w) =
     (if \<not> ok \<and> nextStepOnFailure (steps ! i) = UINT256_MAX
      then Some (Inr (ex\<lparr>x_success := False,
                         x_errorMessage := ''Step failed without handler'',
                         x_currentStep := i\<rparr>,
                      evs @ [WorkflowStepExecuted wid eid i ok], w'))
      else if (if ok then nextStepOnSuccess (steps ! i) else nextStepOnFailure (steps ! i))
                \<ge> length steps
              \<or> (if ok then nextStepOnSuccess (steps ! i) else nextStepOnFailure (steps ! i))
                = UINT256_MAX
      then Some (Inr (ex\<lparr>x_success := ok,
                         x_currentStep := (if ok then nextStepOnSuccess (steps ! i)
                                           else nextStepOnFailure (steps ! i))\<rparr>,
                      evs @ [WorkflowStepExecuted wid eid i ok], w'))
      else walk C t wid eid steps
             ((if ok then nextStepOnSuccess (steps ! i) else nextStepOnFailure (steps ! i)), True,
              ex\<lparr>x_currentStep := (if ok then nextStepOnSuccess (steps ! i)
                                    else nextStepOnFailure (steps ! i))\<rparr>,
              evs @ [WorkflowStepExecuted wid eid i ok], w'))"
  by (subst walk.simps) (simp add: assms Let_def walk_stopped)

lemma etx_at_sel:
  "msg_sender (etx_at a n) = a" "block_timestamp (etx_at a n) = n" "this (etx_at a n) = 9"
  "msg_value (etx_at a n) = 10 ^ 15" "gas_used (etx_at a n) = 21000"
  "keccak256 (etx_at a n) (ExecutionId w a' n') = 81"
  by (simp_all add: etx_at_def example_keccak_def)

lemma example_engine_eq:
  "example_engine = engine_deployed
     \<lparr>workflows := ((workflows engine_deployed)
         (21 := \<lparr>w_id = 21, w_owner = 3, w_name = ''delay'', w_description = [],
                 w_steps = [delay_step, agent_step], w_isActive = True,
                 w_totalExecutions = 0, w_successfulExecutions = 0, w_totalGasUsed = 0,
                 w_createdAt = 10, w_lastExecutedAt = 0\<rparr>))
         (22 := \<lparr>w_id = 22, w_owner = 3, w_name = ''gate'', w_description = [],
                 w_steps = [time_gate, agent_step], w_isActive = True,
                 w_totalExecutions = 0, w_successfulExecutions = 0, w_totalGasUsed = 0,
                 w_createdAt = 10, w_lastExecutedAt = 0\<rparr>),
       allWorkflowIds := [21, 22],
       userWorkflows := (userWorkflows engine_deployed)(3 := [21, 22]),
       totalWorkflows := 2,
       events := [WorkflowCreated 21 3 ''delay'', WorkflowCreated 22 3 ''gate'']\<rparr>"
  by (simp add: example_engine_def createWorkflow_def engine_deployed_def zeroWorkflow_def
      require_def bind_def checked_add_def UINT256_MAX_def Let_def etx_at_def
      example_keccak_def)

lemma uint256_100_decodes: "abi_decode_uint256 uint256_100 = Inr 100"
  by (simp add: abi_decode_uint256_def abi_word_def be_uint256_def uint256_100_def)




lemma evaluateCondition_kinds:
  "(\<forall>account threshold. abi_decode_address_uint256 cData = Inr (account, threshold) \<longrightarrow>
       evaluateCondition C t BALANCE_GT cData w = Inr (token_balanceOf C account w > threshold)
     \<and> evaluateCondition C t BALANCE_LT cData w = Inr (token_balanceOf C account w < threshold))
   \<and> (\<forall>timestamp. abi_decode_uint256 cData = Inr timestamp \<longrightarrow>
       evaluateCondition C t TIME_GT cData w = Inr (block_timestamp t > timestamp)
     \<and> evaluateCondition C t TIME_LT cData w = Inr (block_timestamp t < timestamp))
   \<and> evaluateCondition C t PRICE_GT cData w = Inr True
   \<and> evaluateCondition C t PRICE_LT cData w = Inr True
   \<and> evaluateCondition C t CUSTOM_CONDITION cData w = Inr True"
  by (simp add: evaluateCondition_def bind_def)

lemma executeStep_condition:
  "stepType step = CONDITION \<Longrightarrow>
     evaluateCondition C t (conditionType step) (conditionData step) w = Inr b \<Longrightarrow>
     executeStep C t step w =
       Inr (b, if b then nextStepOnSuccess step else nextStepOnFailure step, w)"
  by (simp add: executeStep_def bind_def)

lemma time_gate_closed:
  "evaluateCondition counting_chain (etx_at 3 50) (conditionType time_gate)
     (conditionData time_gate) 0 = Inr False"
  by (simp add: evaluateCondition_def time_gate_def uint256_100_decodes bind_def etx_at_sel)

lemma time_gate_open:
  "evaluateCondition counting_chain (etx_at 3 150) (conditionType time_gate)
     (conditionData time_gate) 0 = Inr True"
  by (simp add: evaluateCondition_def time_gate_def uint256_100_decodes bind_def etx_at_sel)

lemma time_gate_fields:
  "stepType time_gate = CONDITION" "nextStepOnFailure time_gate = UINT256_MAX"
  "nextStepOnSuccess time_gate = Suc 0"
  by (simp_all add: time_gate_def)

lemma agent_step_runs:
  "executeStep counting_chain t agent_step w = Inr (True, UINT256_MAX, Suc w)"
  by (simp add: executeStep_def agent_step_def counting_chain_def)

lemma gate_aborted_run:
  "executeWorkflow counting_chain (etx_at 3 50) 22 0 example_engine = Some (Inr (81, gate_aborted))"
proof -
  have st: "executeStep counting_chain (etx_at 3 50) ([time_gate, agent_step] ! 0) 0
      = Inr (False, UINT256_MAX, 0)"
    using executeStep_condition[OF time_gate_fields(1) time_gate_closed]
    by (simp add: time_gate_fields)
  have w: "walk counting_chain (etx_at 3 50) wid eid [time_gate, agent_step]
       (0, True, ex, evs, 0) =
           Some (Inr (ex\<lparr>x_success := False,
                          x_errorMessage := ''Step failed without handler'',
                          x_currentStep := 0\<rparr>,
                      evs @ [WorkflowStepExecuted wid eid 0 False], 0))" for wid eid ex evs
    using walk_iterate[OF _ st, of wid eid ex evs] by (simp add: time_gate_fields)
  show ?thesis
    by (simp add: gate_aborted_def executeWorkflow_def example_engine_eq engine_deployed_def zeroWorkflow_def
        etx_at_sel w Let_def bind_def checked_add_def UINT256_MAX_def)
qed

text \<open>
  Claim C9 says that a false condition never takes the "no handler" abort path. The
  loop tests \<open>!stepSuccess && step.nextStepOnFailure == type(uint256).max\<close> for every
  step type: the condition of workflow 22 is false at time 50, its failure edge is the
  sentinel, and the run records "Step failed without handler" with \<open>currentStep\<close>
  still 0 instead of following the failure edge.
\<close>

theorem false_condition_takes_abort_path_counterexample:
  "stepType time_gate = CONDITION
   \<and> evaluateCondition counting_chain (etx_at 3 50) (conditionType time_gate)
        (conditionData time_gate) 0 = Inr False
   \<and> nextStepOnFailure time_gate = UINT256_MAX
   \<and> executeWorkflow counting_chain (etx_at 3 50) 22 0 example_engine
        = Some (Inr (81, gate_aborted))
   \<and> executions gate_aborted 22 =
        [\<lparr>x_workflowId = 22, x_executor = 3, x_startStep = 0, x_currentStep = 0,
          x_gasUsed = 21000, x_completed = True, x_success = False,
          x_errorMessage = ''Step failed without handler'',
          x_startedAt = 50, x_completedAt = 50\<rparr>]
   \<and> x_currentStep (last (executions gate_aborted 22)) \<noteq> nextStepOnFailure time_gate"
proof -
  have st: "executeStep counting_chain (etx_at 3 50) ([time_gate, agent_step] ! 0) 0
      = Inr (False, UINT256_MAX, 0)"
    using executeStep_condition[OF time_gate_fields(1) time_gate_closed]
    by (simp add: time_gate_fields)
  have w: "walk counting_chain (etx_at 3 50) wid eid [time_gate, agent_step]
       (0, True, ex, evs, 0) =
           Some (Inr (ex\<lparr>x_success := False,
                          x_errorMessage := ''Step failed without handler'',
                          x_currentStep := 0\<rparr>,
                      evs @ [WorkflowStepExecuted wid eid 0 False], 0))" for wid eid ex evs
    using walk_iterate[OF _ st, of wid eid ex evs] by (simp add: time_gate_fields)
  have rec: "executions gate_aborted 22 =
        [\<lparr>x_workflowId = 22, x_executor = 3, x_startStep = 0, x_currentStep = 0,
          x_gasUsed = 21000, x_completed = True, x_success = False,
          x_errorMessage = ''Step failed without handler'',
          x_startedAt = 50, x_completedAt = 50\<rparr>]"
    by (simp add: gate_aborted_def executeWorkflow_def example_engine_eq engine_deployed_def zeroWorkflow_def
        etx_at_sel w Let_def bind_def checked_add_def UINT256_MAX_def)
  have ne: "x_currentStep (last (executions gate_aborted 22)) \<noteq> nextStepOnFailure time_gate"
    by (simp add: rec time_gate_fields UINT256_MAX_def)
  from time_gate_fields time_gate_closed gate_aborted_run rec ne show ?thesis by simp
qed

text \<open>
  Claim C9, amended. A condition step evaluates its decoded payload: the token balance of
  the account against the threshold for \<open>BALANCE_GT\<close> and \<open>BALANCE_LT\<close>, the
  block timestamp against the timestamp for \<open>TIME_GT\<close> and \<open>TIME_LT\<close>; every
  other kind is true. The step reports the result with the success edge or the failure
  edge, and the loop follows that edge, except that a false condition whose failure edge
  is the sentinel takes the "no handler" abort path like any other failed step.
\<close>

theorem condition_step_routing:
  fixes C :: "'w chain"
  assumes "i < length steps" and "step = steps ! i" and "stepType step = CONDITION"
  shows "(\<forall>account threshold.
            abi_decode_address_uint256 (conditionData step) = Inr (account, threshold) \<longrightarrow>
            (conditionType step = BALANCE_GT \<longrightarrow>
               evaluateCondition C t (conditionType step) (conditionData step) w
                 = Inr (token_balanceOf C account w > threshold))
          \<and> (conditionType step = BALANCE_LT \<longrightarrow>
               evaluateCondition C t (conditionType step) (conditionData step) w
                 = Inr (token_balanceOf C account w < threshold)))
    \<and> (\<forall>timestamp. abi_decode_uint256 (conditionData step) = Inr timestamp \<longrightarrow>
            (conditionType step = TIME_GT \<longrightarrow>
               evaluateCondition C t (conditionType step) (conditionData step) w
                 = Inr (block_timestamp t > timestamp))
          \<and> (conditionType step = TIME_LT \<longrightarrow>
               evaluateCondition C t (conditionType step) (conditionData step) w
                 = Inr (block_timestamp t < timestamp)))
    \<and> (conditionType step = PRICE_GT \<or> conditionType step = PRICE_LT
          \<or> conditionType step = CUSTOM_CONDITION \<longrightarrow>
            evaluateCondition C t (conditionType step) (conditionData step) w = Inr True)
    \<and> (\<forall>b. evaluateCondition C t (conditionType step) (conditionData step) w = Inr b \<longrightarrow>
          executeStep C t step w =
            Inr (b, if b then nextStepOnSuccess step else nextStepOnFailure step, w)
        \<and> walk C t wid eid steps (i, True, ex, evs, w) =
           (if \<not> b \<and> nextStepOnFailure step = UINT256_MAX
            then Some (Inr (ex\<lparr>x_success := False,
                               x_errorMessage := ''Step failed without handler'',
                               x_currentStep := i\<rparr>,
                            evs @ [WorkflowStepExecuted wid eid i b], w))
            else if (if b then nextStepOnSuccess step else nextStepOnFailure step) \<ge> length steps
                    \<or> (if b then nextStepOnSuccess step else nextStepOnFailure step) = UINT256_MAX
            then Some (Inr (ex\<lparr>x_success := b,
                               x_currentStep := (if b then nextStepOnSuccess step
                                                 else nextStepOnFailure step)\<rparr>,
                            evs @ [WorkflowStepExecuted wid eid i b], w))
            else walk C t wid eid steps
                   ((if b then nextStepOnSuccess step else nextStepOnFailure step), True,
                    ex\<lparr>x_currentStep := (if b then nextStepOnSuccess step
                                          else nextStepOnFailure step)\<rparr>,
                    evs @ [WorkflowStepExecuted wid eid i b], w)))"
proof -
  note kinds = evaluateCondition_kinds[of "conditionData step" C t w]
  have route: "executeStep C t step w =
            Inr (b, if b then nextStepOnSuccess step else nextStepOnFailure step, w)
        \<and> walk C t wid eid steps (i, True, ex, evs, w) =
           (if \<not> b \<and> nextStepOnFailure step = UINT256_MAX
            then Some (Inr (ex\<lparr>x_success := False,
                               x_errorMessage := ''Step failed without handler'',
                               x_currentStep := i\<rparr>,
                            evs @ [WorkflowStepExecuted wid eid i b], w))
            else if (if b then nextStepOnSuccess step else nextStepOnFailure step) \<ge> length steps
                    \<or> (if b then nextStepOnSuccess step else nextStepOnFailure step) = UINT256_MAX
            then Some (Inr (ex\<lparr>x_success := b,
                               x_currentStep := (if b then nextStepOnSuccess step
                                                 else nextStepOnFailure step)\<rparr>,
                            evs @ [WorkflowStepExecuted wid eid i b], w))
            else walk C t wid eid steps
                   ((if b then nextStepOnSuccess step else nextStepOnFailure step), True,
                    ex\<lparr>x_currentStep := (if b then nextStepOnSuccess step
                                          else nextStepOnFailure step)\<rparr>,
                    evs @ [WorkflowStepExecuted wid eid i b], w))"
    if ev: "evaluateCondition C t (conditionType step) (conditionData step) w = Inr b" for b
  proof -
    from executeStep_condition[OF assms(3) ev]
    have st: "executeStep C t (steps ! i) w =
        Inr (b, if b then nextStepOnSuccess step else nextStepOnFailure step, w)"
      by (simp add: assms(2))
    from walk_iterate[OF assms(1) st, of wid eid ex evs] st show ?thesis
      by (simp add: assms(2)[symmetric])
  qed
  from kinds route show ?thesis by (cases "conditionType step") simp_all
qed

theorem condition_step_routing_witness:
  "0 < length [time_gate, agent_step] \<and> stepType ([time_gate, agent_step] ! 0) = CONDITION
   \<and> abi_decode_uint256 (conditionData time_gate) = Inr 100
   \<and> conditionType time_gate = TIME_GT
   \<and> evaluateCondition counting_chain (etx_at 3 150) (conditionType time_gate)
        (conditionData time_gate) 0 = Inr (block_timestamp (etx_at 3 150) > 100)
   \<and> executeStep counting_chain (etx_at 3 150) time_gate 0 = Inr (True, 1, 0)
   \<and> walk counting_chain (etx_at 3 150) 22 81 [time_gate, agent_step]
        (0, True, example_execution, [], 0)
      = Some (Inr (example_execution\<lparr>x_currentStep := 1, x_success := True, x_currentStep := UINT256_MAX\<rparr>,
                   [WorkflowStepExecuted 22 81 0 True, WorkflowStepExecuted 22 81 1 True], 1))
   \<and> walk counting_chain (etx_at 3 50) 22 81 [time_gate, agent_step]
        (0, True, example_execution, [], 0)
      = Some (Inr (example_execution\<lparr>x_success := False, x_errorMessage := ''Step failed without handler'',
                      x_currentStep := 0\<rparr>,
                   [WorkflowStepExecuted 22 81 0 False], 0))"
proof -
  have h: "0 < length [time_gate, agent_step]" "time_gate = [time_gate, agent_step] ! 0"
    by simp_all
  note open_gate = condition_step_routing[OF h time_gate_fields(1),
      where C = counting_chain and t = "etx_at 3 150" and w = 0 and wid = 22 and eid = 81
        and ex = example_execution and evs = "[]"]
  note closed_gate = condition_step_routing[OF h time_gate_fields(1),
      where C = counting_chain and t = "etx_at 3 50" and w = 0 and wid = 22 and eid = 81
        and ex = example_execution and evs = "[]"]
  have dec: "abi_decode_uint256 (conditionData time_gate) = Inr 100"
    "conditionType time_gate = TIME_GT"
    by (simp_all add: time_gate_def uint256_100_decodes)
  from open_gate dec have ev: "evaluateCondition counting_chain (etx_at 3 150)
        (conditionType time_gate) (conditionData time_gate) 0
          = Inr (block_timestamp (etx_at 3 150) > 100)"
    by blast
  from open_gate time_gate_open have
    st: "executeStep counting_chain (etx_at 3 150) time_gate 0 =
            Inr (True, if True then nextStepOnSuccess time_gate else nextStepOnFailure time_gate, 0)"
    and wk: "walk counting_chain (etx_at 3 150) 22 81 [time_gate, agent_step] (0, True, example_execution, [], 0) =
           (if \<not> True \<and> nextStepOnFailure time_gate = UINT256_MAX
            then Some (Inr (example_execution\<lparr>x_success := False,
                               x_errorMessage := ''Step failed without handler'',
                               x_currentStep := 0\<rparr>,
                            [] @ [WorkflowStepExecuted 22 81 0 True], 0))
            else if (if True then nextStepOnSuccess time_gate else nextStepOnFailure time_gate)
                      \<ge> length [time_gate, agent_step]
                    \<or> (if True then nextStepOnSuccess time_gate else nextStepOnFailure time_gate)
                      = UINT256_MAX
            then Some (Inr (example_execution\<lparr>x_success := True,
                               x_currentStep := (if True then nextStepOnSuccess time_gate
                                                 else nextStepOnFailure time_gate)\<rparr>,
                            [] @ [WorkflowStepExecuted 22 81 0 True], 0))
            else walk counting_chain (etx_at 3 150) 22 81 [time_gate, agent_step]
                   ((if True then nextStepOnSuccess time_gate else nextStepOnFailure time_gate), True,
                    example_execution\<lparr>x_currentStep := (if True then nextStepOnSuccess time_gate
                                          else nextStepOnFailure time_gate)\<rparr>,
                    [] @ [WorkflowStepExecuted 22 81 0 True], 0))"
    by blast+
  have second: "walk counting_chain (etx_at 3 150) 22 81 [time_gate, agent_step]
       (Suc 0, True, ex', evs', 0) =
     Some (Inr (ex'\<lparr>x_success := True, x_currentStep := UINT256_MAX\<rparr>,
                evs' @ [WorkflowStepExecuted 22 81 (Suc 0) True], Suc 0))" for ex' evs'
    using walk_iterate[of "Suc 0" "[time_gate, agent_step]" counting_chain "etx_at 3 150" 0
        True UINT256_MAX "Suc 0" 22 81 ex' evs'] agent_step_runs[of "etx_at 3 150" 0]
    by (simp add: agent_step_def)
  from wk have pass: "walk counting_chain (etx_at 3 150) 22 81 [time_gate, agent_step]
        (0, True, example_execution, [], 0)
      = Some (Inr (example_execution\<lparr>x_currentStep := 1, x_success := True, x_currentStep := UINT256_MAX\<rparr>,
                   [WorkflowStepExecuted 22 81 0 True, WorkflowStepExecuted 22 81 1 True], 1))"
    by (simp add: time_gate_fields UINT256_MAX_def second)
  from closed_gate time_gate_closed have
    "walk counting_chain (etx_at 3 50) 22 81 [time_gate, agent_step] (0, True, example_execution, [], 0) =
           (if \<not> False \<and> nextStepOnFailure time_gate = UINT256_MAX
            then Some (Inr (example_execution\<lparr>x_success := False,
                               x_errorMessage := ''Step failed without handler'',
                               x_currentStep := 0\<rparr>,
                            [] @ [WorkflowStepExecuted 22 81 0 False], 0))
            else if (if False then nextStepOnSuccess time_gate else nextStepOnFailure time_gate)
                      \<ge> length [time_gate, agent_step]
                    \<or> (if False then nextStepOnSuccess time_gate else nextStepOnFailure time_gate)
                      = UINT256_MAX
            then Some (Inr (example_execution\<lparr>x_success := False,
                               x_currentStep := (if False then nextStepOnSuccess time_gate
                                                 else nextStepOnFailure time_gate)\<rparr>,
                            [] @ [WorkflowStepExecuted 22 81 0 False], 0))
            else walk counting_chain (etx_at 3 50) 22 81 [time_gate, agent_step]
                   ((if False then nextStepOnSuccess time_gate else nextStepOnFailure time_gate), True,
                    example_execution\<lparr>x_currentStep := (if False then nextStepOnSuccess time_gate
                                          else nextStepOnFailure time_gate)\<rparr>,
                    [] @ [WorkflowStepExecuted 22 81 0 False], 0))"
    by blast
  then have abort: "walk counting_chain (etx_at 3 50) 22 81 [time_gate, agent_step]
        (0, True, example_execution, [], 0)
      = Some (Inr (example_execution\<lparr>x_success := False, x_errorMessage := ''Step failed without handler'',
                      x_currentStep := 0\<rparr>,
                   [WorkflowStepExecuted 22 81 0 False], 0))"
    by (simp add: time_gate_fields)
  from st have st': "executeStep counting_chain (etx_at 3 150) time_gate 0 = Inr (True, 1, 0)"
    by (simp add: time_gate_fields)
  from h time_gate_fields dec ev st' pass abort show ?thesis by simp
qed

end
